theory Spec2Isabelle
  imports Main "HOL-Library.AList"
begin

section \<open>The host: bytes, files, errors\<close>

text \<open>
  The program is Python on a POSIX host. A Python \<open>str\<close> is modelled as a \<open>string\<close>
  whose characters are the code points below 256 (ASCII is exact; the few Latin-1
  letters whose case mapping leaves that range are left unchanged by \<open>casefold\<close> and
  \<open>upper\<close>). A \<open>bytes\<close> value is a list of 8-bit characters. Python's unbounded
  integers are \<open>int\<close>.

  The file system is a finite table from path strings to nodes, in the order the
  host lists them. A path is looked up under the string the program passes, so two
  spellings of one file are two keys; every path the program hands to the host is
  built by \<open>os.path.join\<close> from its arguments and from directory listings, which
  gives each file it touches one spelling. File times are whole seconds.

  Exceptions are values: a function that can raise returns \<open>error + 'a\<close>, with \<open>Inl\<close>
  for the exception, and a caller without a handler passes it on. What the program
  prints (the progress bar, the messages, the summary) is not modelled.
\<close>

type_synonym bytes = "char list"

datatype node =
    File (content: bytes) (readable: bool) (atime: int) (mtime: int)
  | Dir

type_synonym fs = "(string \<times> node) list"

datatype error =
    FileNotFoundError | NotADirectoryError | IsADirectoryError | PermissionError
  | FileExistsError | SameFileError | JSONDecodeError | AttributeError
  | ValueError | OverflowError | RecursionError

definition exists :: "fs \<Rightarrow> string \<Rightarrow> bool" where
  \<comment> \<open>\<open>os.path.exists\<close>\<close>
  "exists fs p = (map_of fs p \<noteq> None)"

definition is_file :: "fs \<Rightarrow> string \<Rightarrow> bool" where
  "is_file fs p = (case map_of fs p of Some (File c r a m) \<Rightarrow> True | _ \<Rightarrow> False)"

definition is_dir :: "fs \<Rightarrow> string \<Rightarrow> bool" where
  "is_dir fs p = (map_of fs p = Some Dir)"

definition open_read :: "fs \<Rightarrow> string \<Rightarrow> nat \<Rightarrow> error + bytes" where
  \<comment> \<open>\<open>open(path, 'rb')\<close> followed by \<open>f.read(n)\<close>\<close>
  "open_read fs p n =
     (case map_of fs p of
        None \<Rightarrow> Inl FileNotFoundError
      | Some Dir \<Rightarrow> Inl IsADirectoryError
      | Some (File c r a m) \<Rightarrow> if r then Inr (take n c) else Inl PermissionError)"

definition read_all :: "fs \<Rightarrow> string \<Rightarrow> error + bytes" where
  "read_all fs p =
     (case map_of fs p of
        None \<Rightarrow> Inl FileNotFoundError
      | Some Dir \<Rightarrow> Inl IsADirectoryError
      | Some (File c r a m) \<Rightarrow> if r then Inr c else Inl PermissionError)"

section \<open>Magic sniffers\<close>

definition PNG_SIG :: bytes where
  "PNG_SIG = [CHR 0x89, CHR 0x50, CHR 0x4e, CHR 0x47, CHR 0x0d, CHR 0x0a, CHR 0x1a, CHR 0x0a]"

definition TIFF_LE :: bytes where
  "TIFF_LE = [CHR 0x49, CHR 0x49, CHR 0x2a, CHR 0x00]"

definition TIFF_BE :: bytes where
  "TIFF_BE = [CHR 0x4d, CHR 0x4d, CHR 0x00, CHR 0x2a]"

definition FTYP :: bytes where
  "FTYP = ''ftyp''"

definition JPEG_SOI :: bytes where
  "JPEG_SOI = [CHR 0xff, CHR 0xd8]"

definition ISO_BRANDS_HEIC :: "bytes list" where
  "ISO_BRANDS_HEIC = [''heic'', ''heix'', ''heif'', ''mif1'']"

definition ISO_BRANDS_MOV :: "bytes list" where
  "ISO_BRANDS_MOV = [''qt  '', ''pnot'']"

definition ISO_BRANDS_MP4 :: "bytes list" where
  "ISO_BRANDS_MP4 = [''isom'', ''mp41'', ''mp42'', ''avc1'']"

definition slice :: "'a list \<Rightarrow> nat \<Rightarrow> nat \<Rightarrow> 'a list" where
  \<comment> \<open>Python's \<open>xs[i:j]\<close> for non-negative \<open>i\<close>, \<open>j\<close>\<close>
  "slice xs i j = take (j - i) (drop i xs)"

definition sniff_type :: "fs \<Rightarrow> string \<Rightarrow> (string \<times> string) option" where
  "sniff_type fs path =
     (case open_read fs path 32 of
        Inl e \<Rightarrow> None
      | Inr header \<Rightarrow>
          if header = [] then None
          else if take 2 header = JPEG_SOI then Some (''jpeg'', ''jpg'')
          else if take 8 header = PNG_SIG then Some (''png'', ''png'')
          else if take 4 header \<in> set [TIFF_LE, TIFF_BE] then Some (''tiff'', ''tif'')
          else if length header \<ge> 12 \<and> slice header 4 8 = FTYP then
            (let brand = slice header 8 12 in
               if brand \<in> set ISO_BRANDS_HEIC then Some (''heic'', ''heic'')
               else if brand \<in> set ISO_BRANDS_MOV then Some (''mov'', ''mov'')
               else Some (''mp4'', ''mp4''))
          else None)"

section \<open>Paths (posixpath)\<close>

fun rfind :: "char \<Rightarrow> string \<Rightarrow> int" where
  \<comment> \<open>\<open>s.rfind(c)\<close>: the last index of \<open>c\<close>, or \<open>-1\<close>\<close>
  "rfind c [] = -1"
| "rfind c (x # xs) =
     (let r = rfind c xs in if r \<ge> 0 then r + 1 else if x = c then 0 else -1)"

definition splitext :: "string \<Rightarrow> string \<times> string" where
  \<comment> \<open>a dot counts only when a character other than a dot stands between the last
      separator and it\<close>
  "splitext p =
     (let sepIndex = rfind CHR ''/'' p; dotIndex = rfind CHR ''.'' p in
        if dotIndex > sepIndex
           \<and> list_ex (\<lambda>c. c \<noteq> CHR ''.'') (slice p (nat (sepIndex + 1)) (nat dotIndex))
        then (take (nat dotIndex) p, drop (nat dotIndex) p)
        else (p, ''''))"

definition basename :: "string \<Rightarrow> string" where
  "basename p = drop (nat (rfind CHR ''/'' p + 1)) p"

definition rstrip_char :: "char \<Rightarrow> string \<Rightarrow> string" where
  \<comment> \<open>\<open>s.rstrip(c)\<close> for a single character\<close>
  "rstrip_char c s = rev (dropWhile (\<lambda>x. x = c) (rev s))"

definition dirname :: "string \<Rightarrow> string" where
  "dirname p =
     (let head = take (nat (rfind CHR ''/'' p + 1)) p in
        if head \<noteq> [] \<and> head \<noteq> replicate (length head) CHR ''/''
        then rstrip_char CHR ''/'' head else head)"

definition join :: "string \<Rightarrow> string \<Rightarrow> string" where
  "join a b =
     (if b \<noteq> [] \<and> hd b = CHR ''/'' then b
      else if a = [] \<or> last a = CHR ''/'' then a @ b
      else a @ ''/'' @ b)"

fun split_sep :: "string \<Rightarrow> string list" where
  \<comment> \<open>\<open>s.split('/')\<close>\<close>
  "split_sep [] = [[]]"
| "split_sep (c # cs) =
     (if c = CHR ''/'' then [] # split_sep cs
      else (case split_sep cs of [] \<Rightarrow> [[c]] | w # ws \<Rightarrow> (c # w) # ws))"

fun intercalate :: "string \<Rightarrow> string list \<Rightarrow> string" where
  \<comment> \<open>\<open>sep.join(xs)\<close>\<close>
  "intercalate s [] = []"
| "intercalate s [x] = x"
| "intercalate s (x # y # ys) = x @ s @ intercalate s (y # ys)"

definition normpath_step :: "nat \<Rightarrow> string list \<Rightarrow> string \<Rightarrow> string list" where
  "normpath_step initial_slashes new_comps c =
     (if c = [] \<or> c = ''.'' then new_comps
      else if c \<noteq> ''..'' \<or> (initial_slashes = 0 \<and> new_comps = [])
              \<or> (new_comps \<noteq> [] \<and> last new_comps = ''..'')
      then new_comps @ [c]
      else if new_comps \<noteq> [] then butlast new_comps
      else new_comps)"

definition normpath :: "string \<Rightarrow> string" where
  "normpath path =
     (if path = [] then ''.''
      else
        (let initial_slashes =
               (if take 1 path = ''/'' then
                  (if take 2 path = ''//'' \<and> take 3 path \<noteq> ''///'' then 2 else 1)
                else 0);
             comps = foldl (normpath_step initial_slashes) [] (split_sep path);
             p = replicate initial_slashes CHR ''/'' @ intercalate ''/'' comps
         in if p = [] then ''.'' else p))"

definition abspath :: "string \<Rightarrow> string \<Rightarrow> string" where
  \<comment> \<open>the first argument is the working directory, \<open>os.getcwd()\<close>\<close>
  "abspath cwd path =
     (if take 1 path = ''/'' then normpath path else normpath (join cwd path))"

fun commonprefix_len :: "'a list \<Rightarrow> 'a list \<Rightarrow> nat" where
  "commonprefix_len (x # xs) (y # ys) = (if x = y then Suc (commonprefix_len xs ys) else 0)"
| "commonprefix_len _ _ = 0"

definition relpath :: "string \<Rightarrow> string \<Rightarrow> string \<Rightarrow> error + string" where
  "relpath cwd path start =
     (if path = [] then Inl ValueError
      else
        (let start_list = filter (\<lambda>x. x \<noteq> []) (split_sep (abspath cwd start));
             path_list = filter (\<lambda>x. x \<noteq> []) (split_sep (abspath cwd path));
             i = commonprefix_len start_list path_list;
             rel_list = replicate (length start_list - i) ''..'' @ drop i path_list
         in if rel_list = [] then Inr ''.''
            else Inr (foldl join (hd rel_list) (tl rel_list))))"

section \<open>Strings\<close>

fun show_nat :: "nat \<Rightarrow> string" where
  \<comment> \<open>\<open>str(n)\<close> for \<open>n \<ge> 0\<close>\<close>
  "show_nat n =
     (if n < 10 then [char_of (48 + n)]
      else show_nat (n div 10) @ [char_of (48 + n mod 10)])"

declare show_nat.simps [simp del]

definition show_int :: "int \<Rightarrow> string" where
  "show_int i = (if i < 0 then CHR ''-'' # show_nat (nat (- i)) else show_nat (nat i))"

definition startswith :: "string \<Rightarrow> string \<Rightarrow> bool" where
  \<comment> \<open>\<open>s.startswith(p)\<close>\<close>
  "startswith s p = (take (length p) s = p)"

definition is_space :: "char \<Rightarrow> bool" where
  \<comment> \<open>the characters below 256 that \<open>\s\<close> and \<open>str.strip()\<close> treat as white space\<close>
  "is_space c =
     (let n = (of_char c :: nat) in
        (9 \<le> n \<and> n \<le> 13) \<or> (28 \<le> n \<and> n \<le> 32) \<or> n = 133 \<or> n = 160)"

definition is_digit :: "char \<Rightarrow> bool" where
  "is_digit c = (let n = (of_char c :: nat) in 48 \<le> n \<and> n \<le> 57)"

definition strip :: "string \<Rightarrow> string" where
  \<comment> \<open>\<open>s.strip()\<close>\<close>
  "strip s = rev (dropWhile is_space (rev (dropWhile is_space s)))"

definition lower_char :: "char \<Rightarrow> char" where
  "lower_char c =
     (let n = (of_char c :: nat) in
        if (65 \<le> n \<and> n \<le> 90) \<or> (192 \<le> n \<and> n \<le> 222 \<and> n \<noteq> 215)
        then char_of (n + 32) else c)"

definition upper_char :: "char \<Rightarrow> char" where
  "upper_char c =
     (let n = (of_char c :: nat) in
        if (97 \<le> n \<and> n \<le> 122) \<or> (224 \<le> n \<and> n \<le> 254 \<and> n \<noteq> 247)
        then char_of (n - 32) else c)"

definition lower :: "string \<Rightarrow> string" where
  "lower s = map lower_char s"

definition casefold :: "string \<Rightarrow> string" where
  \<comment> \<open>sharp s folds to \<open>ss\<close>\<close>
  "casefold s = concat (map (\<lambda>c. if c = CHR 0xDF then ''ss'' else [lower_char c]) s)"

definition upper :: "string \<Rightarrow> string" where
  "upper s = concat (map (\<lambda>c. if c = CHR 0xDF then ''SS'' else [upper_char c]) s)"

section \<open>Google Takeout JSON helpers and filename normalization\<close>

definition fix_title_chars :: "char list" where
  "fix_title_chars =
     [CHR ''%'', CHR ''<'', CHR ''>'', CHR ''='', CHR '':'', CHR ''?'', CHR 0xBF, CHR ''*'',
      CHR ''#'', CHR ''&'', CHR ''{'', CHR ''}'', CHR 0x0A, CHR ''@'', CHR ''!'', CHR ''+'',
      CHR 0x0A, CHR 0x22, CHR 0x27]"

function collapse_spaces :: "string \<Rightarrow> string" where
  \<comment> \<open>\<open>re.sub(r"\s{2,}", " ", s)\<close>: a run of two or more white-space characters
      becomes one blank\<close>
  "collapse_spaces [] = []"
| "collapse_spaces (c # cs) =
     (if is_space c then
        (if takeWhile is_space cs = [] then c # collapse_spaces cs
         else CHR '' '' # collapse_spaces (dropWhile is_space cs))
      else c # collapse_spaces cs)"
  by pat_completeness auto
termination
  by (relation "measure length") (auto simp: length_dropWhile_le less_Suc_eq_le)

definition fix_title :: "string \<Rightarrow> string" where
  "fix_title title =
     (let cleaned = foldl (\<lambda>cleaned ch. filter (\<lambda>x. x \<noteq> ch) cleaned) title fix_title_chars
      in strip (collapse_spaces cleaned))"

definition side_suffix_names :: "string list" where
  "side_suffix_names = [''supplemental-metadata'', ''supp-metadata'', ''suppl'', ''supp'']"

definition at_end :: "string \<Rightarrow> bool" where
  \<comment> \<open>\<open>$\<close>: the end of the string, or just before a newline that ends it\<close>
  "at_end r = (r = [] \<or> r = [CHR 0x0A])"

definition counter_then_end :: "string \<Rightarrow> string option" where
  \<comment> \<open>\<open>(\(\d+\))?$\<close>: what is left of the string after the match\<close>
  "counter_then_end r =
     (if at_end r then Some r
      else (case r of
              [] \<Rightarrow> None
            | c # cs \<Rightarrow>
                (let ds = takeWhile is_digit cs; r' = dropWhile is_digit cs in
                   if c = CHR ''('' \<and> ds \<noteq> [] \<and> take 1 r' = '')'' \<and> at_end (drop 1 r')
                   then Some (drop 1 r') else None)))"

definition side_suffix_match :: "string \<Rightarrow> string option" where
  \<comment> \<open>a match of \<open>SIDE_SUFFIX_RE\<close> that starts at the head of the string; the
      alternatives are tried in the pattern's order, ignoring case\<close>
  "side_suffix_match s =
     (case s of
        [] \<Rightarrow> None
      | c # t \<Rightarrow>
          if c \<noteq> CHR ''.'' then None
          else
            (case filter (\<lambda>r. r \<noteq> None)
                    (map (\<lambda>a. if lower (take (length a) t) = a
                               then counter_then_end (drop (length a) t) else None)
                       side_suffix_names) of
               [] \<Rightarrow> None
             | r # rs \<Rightarrow> r))"

fun strip_json_suffix :: "string \<Rightarrow> string" where
  \<comment> \<open>\<open>SIDE_SUFFIX_RE.sub('', base)\<close>: the leftmost match is removed\<close>
  "strip_json_suffix [] = []"
| "strip_json_suffix (c # cs) =
     (case side_suffix_match (c # cs) of
        Some rest \<Rightarrow> rest
      | None \<Rightarrow> c # strip_json_suffix cs)"

fun collapse_dots :: "string \<Rightarrow> string" where
  \<comment> \<open>\<open>re.sub(r"\.+", ".", s)\<close>\<close>
  "collapse_dots [] = []"
| "collapse_dots [c] = [c]"
| "collapse_dots (c # d # cs) =
     (if c = CHR ''.'' \<and> d = CHR ''.'' then collapse_dots (d # cs)
      else c # collapse_dots (d # cs))"

definition sanitize_json_title :: "string \<Rightarrow> string" where
  "sanitize_json_title base =
     (let s = strip_json_suffix (fix_title base);
          s = collapse_dots s;
          s = rstrip_char CHR ''.'' s
      in s)"

function collapse_extensions_loop :: "string \<Rightarrow> string \<Rightarrow> string \<times> string" where
  "collapse_extensions_loop base last_ext =
     (case splitext base of
        (b, e) \<Rightarrow> if e \<noteq> [] then collapse_extensions_loop b e else (base, last_ext))"
  by pat_completeness auto
termination
  by (relation "measure (\<lambda>(base, last_ext). length base)")
     (auto simp: splitext_def Let_def split: if_splits)

definition collapse_extensions :: "string \<Rightarrow> string \<times> string" where
  "collapse_extensions name = collapse_extensions_loop name ''''"

section \<open>Directory listings\<close>

definition child_of :: "string \<Rightarrow> string \<Rightarrow> bool" where
  \<comment> \<open>the path is an entry of the folder: the folder joined with a plain name\<close>
  "child_of folder p =
     (let name = basename p in
        name \<noteq> [] \<and> name \<noteq> ''.'' \<and> name \<noteq> ''..'' \<and> join folder name = p)"

definition scandir :: "fs \<Rightarrow> string \<Rightarrow> error + (string \<times> string) list" where
  \<comment> \<open>\<open>os.scandir(path)\<close>: the entries as pairs of \<open>e.name\<close> and \<open>e.path\<close>\<close>
  "scandir fs path =
     (case map_of fs path of
        None \<Rightarrow> Inl FileNotFoundError
      | Some (File c r a m) \<Rightarrow> Inl NotADirectoryError
      | Some Dir \<Rightarrow> Inr (map (\<lambda>p. (basename p, p)) (filter (child_of path) (map fst fs))))"

section \<open>Media resolver\<close>

definition media_exts :: "string list" where
  "media_exts = [''heic'', ''jpg'', ''jpeg'', ''png'', ''tif'', ''tiff'', ''mov'', ''mp4'', ''m4v'']"

definition add_variants :: "string \<Rightarrow> string \<Rightarrow> string \<Rightarrow> string list" where
  "add_variants edited_word stem ext =
     (let dotext = ''.'' @ ext in
        [stem @ dotext,
         stem @ ''-'' @ edited_word @ dotext,
         stem @ ''-'' @ upper edited_word @ dotext,
         stem @ '' - '' @ edited_word @ dotext,
         stem @ '' ('' @ edited_word @ '')'' @ dotext,
         stem @ ''(1)'' @ dotext,
         stem @ '' (1)'' @ dotext]
        @ concat (map (\<lambda>n. [stem @ ''('' @ show_nat n @ '')'' @ dotext,
                             stem @ '' ('' @ show_nat n @ '')'' @ dotext]) [2..<21]))"

definition search_candidates :: "string \<Rightarrow> string \<Rightarrow> string list" where
  \<comment> \<open>the list \<open>candidates\<close> that \<open>search_media\<close> builds from the title as given\<close>
  "search_candidates title0 edited_word =
     (let title = sanitize_json_title title0;
          (file_name, json_ext) = splitext title
      in concat (map (add_variants edited_word file_name) media_exts)
         @ (if json_ext \<noteq> [] \<and> lower (drop 1 json_ext) \<notin> set media_exts
            then concat (map (add_variants edited_word title) media_exts) else []))"

definition media_kinds :: "string list" where
  "media_kinds = [''jpeg'', ''png'', ''tiff'', ''heic'', ''mov'', ''mp4'']"

definition search_media :: "fs \<Rightarrow> string \<Rightarrow> string \<Rightarrow> string \<Rightarrow> error + string option" where
  "search_media fs path title0 edited_word =
     (let title = sanitize_json_title title0;
          (file_name, json_ext) = splitext title;
          candidates = search_candidates title0 edited_word
      in
        case List.find (\<lambda>cand. exists fs (join path cand)) candidates of
          Some cand \<Rightarrow> Inr (Some (join path cand))
        | None \<Rightarrow>
            (case scandir fs path of
               Inl FileNotFoundError \<Rightarrow> Inr None
             | Inl e \<Rightarrow> Inl e
             | Inr es \<Rightarrow>
                 (let entries = map (\<lambda>(name, p). (casefold name, p))
                                  (filter (\<lambda>(name, p). is_file fs p) es)
                  in
                    case List.find (\<lambda>cand.
                           case map_of (rev entries) (casefold cand) of
                             Some p \<Rightarrow> p \<noteq> [] | None \<Rightarrow> False) candidates of
                      Some cand \<Rightarrow> Inr (map_of (rev entries) (casefold cand))
                    | None \<Rightarrow>
                        (let base_cf = casefold file_name in
                           case List.find (\<lambda>(name, p).
                                  is_file fs p \<and> startswith (casefold name) base_cf \<and>
                                  (case sniff_type fs p of
                                     Some t \<Rightarrow> fst t \<in> set media_kinds
                                   | None \<Rightarrow> False)) es of
                             Some (name, p) \<Rightarrow> Inr (Some p)
                           | None \<Rightarrow> Inr None))))"

section \<open>Live Photo partner finder\<close>

definition is_video :: "fs \<Rightarrow> string \<Rightarrow> bool" where
  \<comment> \<open>\<open>t = sniff_type(c)\<close>; \<open>t and t[0] in ("mov", "mp4")\<close>\<close>
  "is_video fs p =
     (case sniff_type fs p of Some t \<Rightarrow> fst t \<in> set [''mov'', ''mp4''] | None \<Rightarrow> False)"

definition find_live_video_partner :: "fs \<Rightarrow> string \<Rightarrow> string \<Rightarrow> error + string option" where
  "find_live_video_partner fs folder image_basestem =
     (let candidates =
            [join folder image_basestem,
             join folder (image_basestem @ ''.mov''),
             join folder (image_basestem @ ''.MOV''),
             join folder (image_basestem @ ''.mp4''),
             join folder (image_basestem @ ''.MP4''),
             join folder (image_basestem @ ''.m4v'')]
      in
        case List.find (\<lambda>c. exists fs c \<and> is_video fs c) candidates of
          Some c \<Rightarrow> Inr (Some c)
        | None \<Rightarrow>
            (case scandir fs folder of
               Inl FileNotFoundError \<Rightarrow> Inr None
             | Inl e \<Rightarrow> Inl e
             | Inr es \<Rightarrow>
                 (case List.find (\<lambda>(name, p).
                          is_file fs p \<and>
                          (name = image_basestem \<or> startswith name (image_basestem @ ''.'')) \<and>
                          is_video fs p) es of
                    Some (name, p) \<Rightarrow> Inr (Some p)
                  | None \<Rightarrow> Inr None)))"

section \<open>Python values read from a descriptor\<close>

text \<open>
  A parsed descriptor is a tree of Python values. Floating point is not modelled bit
  by bit: a float is given by the three things the program observes of it, its
  \<open>str()\<close>, its \<open>int()\<close> (\<open>None\<close> when that raises, for \<open>nan\<close> and the infinities)
  and its truth value. \<open>JNull\<close> is Python's \<open>None\<close>.
\<close>

datatype pyfloat = PyFloat (f_repr: string) (f_trunc: "int option") (f_nonzero: bool)

datatype json =
    JNull | JBool bool | JInt int | JFloat pyfloat | JStr string
  | JArr "json list" | JObj "(string \<times> json) list"

definition hex_digit :: "nat \<Rightarrow> char" where
  "hex_digit n = (if n < 10 then char_of (48 + n) else char_of (87 + n))"

definition repr_char :: "char \<Rightarrow> char \<Rightarrow> string" where
  "repr_char quote c =
     (let n = (of_char c :: nat) in
        if c = quote \<or> c = CHR 0x5C then [CHR 0x5C, c]
        else if n = 9 then [CHR 0x5C, CHR ''t'']
        else if n = 10 then [CHR 0x5C, CHR ''n'']
        else if n = 13 then [CHR 0x5C, CHR ''r'']
        else if n < 32 \<or> n = 127 \<or> (128 \<le> n \<and> n \<le> 160) \<or> n = 173
        then [CHR 0x5C, CHR ''x'', hex_digit (n div 16), hex_digit (n mod 16)]
        else [c])"

definition repr_str :: "string \<Rightarrow> string" where
  \<comment> \<open>\<open>repr(s)\<close> of a \<open>str\<close>\<close>
  "repr_str s =
     (let quote = (if CHR 0x27 \<in> set s \<and> CHR 0x22 \<notin> set s then CHR 0x22 else CHR 0x27)
      in quote # concat (map (repr_char quote) s) @ [quote])"

fun py_repr :: "json \<Rightarrow> string"
  and py_repr_list :: "json list \<Rightarrow> string"
  and py_repr_items :: "(string \<times> json) list \<Rightarrow> string" where
  "py_repr JNull = ''None''"
| "py_repr (JBool b) = (if b then ''True'' else ''False'')"
| "py_repr (JInt i) = show_int i"
| "py_repr (JFloat f) = f_repr f"
| "py_repr (JStr s) = repr_str s"
| "py_repr (JArr xs) = ''['' @ py_repr_list xs @ '']''"
| "py_repr (JObj kvs) = ''{'' @ py_repr_items kvs @ ''}''"
| "py_repr_list [] = []"
| "py_repr_list [x] = py_repr x"
| "py_repr_list (x # y # ys) = py_repr x @ '', '' @ py_repr_list (y # ys)"
| "py_repr_items [] = []"
| "py_repr_items [(k, v)] = repr_str k @ '': '' @ py_repr v"
| "py_repr_items ((k, v) # kv # kvs) =
     repr_str k @ '': '' @ py_repr v @ '', '' @ py_repr_items (kv # kvs)"

definition py_str :: "json \<Rightarrow> string" where
  \<comment> \<open>\<open>str(x)\<close>, which is also what an f-string field \<open>{x}\<close> renders\<close>
  "py_str x = (case x of JStr s \<Rightarrow> s | _ \<Rightarrow> py_repr x)"

definition truthy :: "json \<Rightarrow> bool" where
  "truthy x =
     (case x of
        JNull \<Rightarrow> False
      | JBool b \<Rightarrow> b
      | JInt i \<Rightarrow> i \<noteq> 0
      | JFloat f \<Rightarrow> f_nonzero f
      | JStr s \<Rightarrow> s \<noteq> []
      | JArr xs \<Rightarrow> xs \<noteq> []
      | JObj kvs \<Rightarrow> kvs \<noteq> [])"

definition is_dict :: "json \<Rightarrow> bool" where
  \<comment> \<open>\<open>isinstance(x, dict)\<close>\<close>
  "is_dict x = (case x of JObj kvs \<Rightarrow> True | _ \<Rightarrow> False)"

definition dict_get :: "json \<Rightarrow> string \<Rightarrow> error + json" where
  \<comment> \<open>\<open>x.get(k)\<close>: only a dict has the method\<close>
  "dict_get x k =
     (case x of
        JObj kvs \<Rightarrow> (case map_of kvs k of Some v \<Rightarrow> Inr v | None \<Rightarrow> Inr JNull)
      | _ \<Rightarrow> Inl AttributeError)"

definition digits_ok :: "string \<Rightarrow> bool" where
  \<comment> \<open>decimal digits, single underscores allowed between two digits\<close>
  "digits_ok s =
     (s \<noteq> [] \<and> is_digit (hd s) \<and> is_digit (last s)
      \<and> list_all (\<lambda>c. is_digit c \<or> c = CHR ''_'') s
      \<and> list_all (\<lambda>(c, d). \<not> (c = CHR ''_'' \<and> d = CHR ''_'')) (zip s (tl s)))"

definition digits_val :: "string \<Rightarrow> int" where
  "digits_val s = foldl (\<lambda>acc c. 10 * acc + (int (of_char c) - 48)) 0 (filter is_digit s)"

definition is_int_space :: "char \<Rightarrow> bool" where
  \<comment> \<open>the characters below 256 that \<open>int()\<close> drops around a number\<close>
  "is_int_space c =
     (let n = (of_char c :: nat) in (9 \<le> n \<and> n \<le> 13) \<or> n = 32 \<or> n = 133 \<or> n = 160)"

definition py_int_str :: "string \<Rightarrow> int option" where
  \<comment> \<open>\<open>int(s)\<close> of a \<open>str\<close>; \<open>None\<close> where it raises \<open>ValueError\<close> (the
      interpreter's limit on the number of digits is left out)\<close>
  "py_int_str s0 =
     (let s = rev (dropWhile is_int_space (rev (dropWhile is_int_space s0)));
          neg = (take 1 s = ''-'');
          body = (if take 1 s = ''-'' \<or> take 1 s = ''+'' then drop 1 s else s)
      in if digits_ok body then Some (if neg then - digits_val body else digits_val body)
         else None)"

definition py_int :: "json \<Rightarrow> int option" where
  \<comment> \<open>\<open>int(x)\<close>; \<open>None\<close> where it raises\<close>
  "py_int x =
     (case x of
        JNull \<Rightarrow> None
      | JBool b \<Rightarrow> Some (if b then 1 else 0)
      | JInt i \<Rightarrow> Some i
      | JFloat f \<Rightarrow> f_trunc f
      | JStr s \<Rightarrow> py_int_str s
      | JArr xs \<Rightarrow> None
      | JObj kvs \<Rightarrow> None)"

section \<open>The environment of a run\<close>

text \<open>
  What the program takes from its host besides the file system: the working
  directory; \<open>json.load\<close> on the bytes of a descriptor (\<open>Inl\<close> where it raises);
  \<open>datetime.fromtimestamp(ts).strftime('%Y:%m:%d %H:%M:%S')\<close> in the host's time
  zone (\<open>Inl\<close> where \<open>fromtimestamp\<close> raises, for an instant outside the host's range);
  and \<open>subprocess.run\<close> on a command line, which returns the exit code, the combined
  output and the file system the tool leaves behind, or \<open>None\<close> when the executable
  is not found; and the depth of recursion the interpreter allows.
\<close>

record env =
  cwd :: string
  json_load :: "bytes \<Rightarrow> error + json"
  strftime_local :: "int \<Rightarrow> error + string"
  subprocess_run :: "string list \<Rightarrow> fs \<Rightarrow> (int \<times> string \<times> fs) option"
  recursion_limit :: nat

section \<open>ExifTool writing\<close>

record meta =
  timestamp :: "int option"
  latitude :: json
  longitude :: json
  altitude :: json

definition timestamp_of :: "json \<Rightarrow> string \<Rightarrow> int option option" where
  \<comment> \<open>\<open>isinstance(j.get(k), dict) and j[k].get('timestamp')\<close>, then \<open>int(...)\<close> under
      \<open>try\<close>; the outer \<open>None\<close> when the guard is false\<close>
  "timestamp_of j k =
     (case dict_get j k of
        Inr (JObj kvs) \<Rightarrow>
          (case map_of kvs ''timestamp'' of
             Some v \<Rightarrow> if truthy v then Some (py_int v) else None
           | None \<Rightarrow> None)
      | _ \<Rightarrow> None)"

definition extract_metadata :: "env \<Rightarrow> fs \<Rightarrow> string \<Rightarrow> error + meta" where
  "extract_metadata E fs json_path =
     (case read_all fs json_path of
        Inl e \<Rightarrow> Inl e
      | Inr bs \<Rightarrow>
     (case json_load E bs of
        Inl e \<Rightarrow> Inl e
      | Inr j \<Rightarrow>
          if \<not> is_dict j then Inl AttributeError
          else
            (let ts = (case timestamp_of j ''photoTakenTime'' of Some r \<Rightarrow> r | None \<Rightarrow> None);
                 ts = (if ts = None then
                         (case timestamp_of j ''creationTime'' of Some r \<Rightarrow> r | None \<Rightarrow> ts)
                       else ts);
                 geo = (case j of
                          JObj kvs \<Rightarrow>
                            (case map_of kvs ''geoData'' of
                               Some v \<Rightarrow> if truthy v then v else JObj []
                             | None \<Rightarrow> JObj [])
                        | _ \<Rightarrow> JObj [])
             in
               case (dict_get geo ''latitude'', dict_get geo ''longitude'',
                     dict_get geo ''altitude'') of
                 (Inr lat, Inr lon, Inr alt) \<Rightarrow>
                   Inr \<lparr>timestamp = ts, latitude = lat, longitude = lon, altitude = alt\<rparr>
               | _ \<Rightarrow> Inl AttributeError)))"

definition fmt_ts :: "env \<Rightarrow> int \<Rightarrow> error + string" where
  "fmt_ts E ts = strftime_local E ts"

definition valid_num :: "json \<Rightarrow> bool" where
  "valid_num x = (x \<noteq> JNull \<and> py_str x \<noteq> [])"

definition build_exiftool_args :: "env \<Rightarrow> fs \<Rightarrow> string \<Rightarrow> meta \<Rightarrow> error + string list" where
  "build_exiftool_args E fs target_path m =
     (let ts = timestamp m; lat = latitude m; lon = longitude m; alt = altitude m;
          args = [''-overwrite_original'']
      in
        case (case ts of
                Some t \<Rightarrow>
                  if t \<noteq> 0 then
                    (case fmt_ts E t of
                       Inl e \<Rightarrow> Inl e
                     | Inr dt \<Rightarrow>
                         Inr (args @
                              [''-DateTimeOriginal='' @ dt,
                               ''-CreateDate='' @ dt,
                               ''-ModifyDate='' @ dt,
                               ''-P'',
                               ''-FileCreateDate<CreateDate'',
                               ''-FileModifyDate<ModifyDate'']))
                  else Inr args
              | None \<Rightarrow> Inr args) of
          Inl e \<Rightarrow> Inl e
        | Inr args \<Rightarrow>
            (let args = (if valid_num lat \<and> valid_num lon
                         then args @ [''-GPSLatitude='' @ py_str lat,
                                      ''-GPSLongitude='' @ py_str lon]
                         else args);
                 args = (if valid_num alt then args @ [''-GPSAltitude='' @ py_str alt]
                         else args);
                 args = (if is_video fs target_path
                         then [''-api'', ''QuickTimeUTC=1''] @ args else args)
             in Inr args))"

definition run_exiftool :: "env \<Rightarrow> string list \<Rightarrow> string \<Rightarrow> fs \<Rightarrow> int \<times> string \<times> fs" where
  "run_exiftool E args target fs =
     (let cmd = [''exiftool''] @ args @ [target] in
        case subprocess_run E cmd fs of
          Some r \<Rightarrow> r
        | None \<Rightarrow>
            (127, ''exiftool not found. Install it and ensure it'' @ [CHR 0x27]
                  @ ''s in PATH.'', fs))"

section \<open>Filesystem timestamp setter\<close>

definition utime :: "fs \<Rightarrow> string \<Rightarrow> int \<Rightarrow> int \<Rightarrow> error + fs" where
  \<comment> \<open>\<open>os.utime(path, (a, m))\<close>; a directory keeps no times in this model\<close>
  "utime fs path a m =
     (case map_of fs path of
        None \<Rightarrow> Inl FileNotFoundError
      | Some Dir \<Rightarrow> Inr fs
      | Some (File c r a0 m0) \<Rightarrow> Inr (AList.update path (File c r a m) fs))"

definition set_fs_times_fallback :: "env \<Rightarrow> fs \<Rightarrow> string \<Rightarrow> int \<Rightarrow> fs" where
  \<comment> \<open>the whole body runs under \<open>try\<close>, and every exception is dropped; the round
      trip through the local date gives the timestamp back\<close>
  "set_fs_times_fallback E fs path ts =
     (case strftime_local E ts of
        Inl e \<Rightarrow> fs
      | Inr dt \<Rightarrow>
          (let mod_time = ts in
             case utime fs path mod_time mod_time of Inl e \<Rightarrow> fs | Inr fs' \<Rightarrow> fs'))"

section \<open>Apply metadata and filesystem timestamps\<close>

definition apply_metadata_and_fs_times ::
  "env \<Rightarrow> fs \<Rightarrow> string \<Rightarrow> meta \<Rightarrow> error + (int \<times> string \<times> fs)" where
  "apply_metadata_and_fs_times E fs target_path m =
     (case build_exiftool_args E fs target_path m of
        Inl e \<Rightarrow> Inl e
      | Inr args \<Rightarrow>
          (case run_exiftool E args target_path fs of
             (rc, log, fs1) \<Rightarrow>
               (let ts = timestamp m;
                    fs2 = (case ts of
                             Some t \<Rightarrow> if t \<noteq> 0 then set_fs_times_fallback E fs1 target_path t
                                       else fs1
                           | None \<Rightarrow> fs1)
                in Inr (rc, log, fs2))))"

section \<open>Output-only normalization and copy\<close>

definition makedirs :: "fs \<Rightarrow> string \<Rightarrow> error + fs" where
  \<comment> \<open>\<open>os.makedirs(p, exist_ok=True)\<close>; the directories above \<open>p\<close> get no entry of
      their own\<close>
  "makedirs fs p =
     (case map_of fs p of
        Some Dir \<Rightarrow> Inr fs
      | Some (File c r a m) \<Rightarrow> Inl FileExistsError
      | None \<Rightarrow> Inr (AList.update p Dir fs))"

definition copy2 :: "fs \<Rightarrow> string \<Rightarrow> string \<Rightarrow> error + fs" where
  \<comment> \<open>\<open>shutil.copy2(src, dst)\<close>: the bytes, the mode and the times of the source;
      the directory of the destination is taken to exist\<close>
  "copy2 fs src dst =
     (let dst = (if is_dir fs dst then join dst (basename src) else dst) in
        if exists fs src \<and> src = dst then Inl SameFileError
        else
          (case map_of fs src of
             None \<Rightarrow> Inl FileNotFoundError
           | Some Dir \<Rightarrow> Inl IsADirectoryError
           | Some (File c r a m) \<Rightarrow>
               if \<not> r then Inl PermissionError
               else if is_dir fs dst then Inl IsADirectoryError
               else Inr (AList.update dst (File c r a m) fs)))"

definition candidate_name :: "string \<Rightarrow> string \<Rightarrow> string \<Rightarrow> nat \<Rightarrow> string" where
  \<comment> \<open>\<open>os.path.join(out_dir, f"{stem}({n}){ext}")\<close>\<close>
  "candidate_name out_dir stem ext n = join out_dir (stem @ ''('' @ show_nat n @ '')'' @ ext)"

definition read_nat :: "string \<Rightarrow> nat" where
  "read_nat s = foldl (\<lambda>acc c. 10 * acc + (of_char c - 48)) 0 s"

lemma read_nat_show_nat: "read_nat (show_nat n) = n"
proof (induction n rule: show_nat.induct)
  case (1 n)
  show ?case
  proof (cases "n < 10")
    case True
    then show ?thesis by (simp add: show_nat.simps [of n] read_nat_def)
  next
    case False
    have "read_nat (show_nat n) = 10 * read_nat (show_nat (n div 10)) + n mod 10"
      using False by (simp add: show_nat.simps [of n] read_nat_def)
    also have "\<dots> = 10 * (n div 10) + n mod 10"
      using 1 False by simp
    finally show ?thesis by simp
  qed
qed

lemma show_nat_inj: "show_nat n = show_nat m \<Longrightarrow> n = m"
  by (metis read_nat_show_nat)

lemma join_append:
  "join a (s @ CHR ''('' # t) = (if s \<noteq> [] \<and> hd s = CHR ''/'' then [] else
      if a = [] \<or> last a = CHR ''/'' then a else a @ ''/'') @ s @ CHR ''('' # t"
  by (cases s) (auto simp: join_def)

lemma candidate_name_inj:
  "candidate_name out_dir stem ext n = candidate_name out_dir stem ext m \<Longrightarrow> n = m"
proof -
  assume "candidate_name out_dir stem ext n = candidate_name out_dir stem ext m"
  then have "show_nat n @ '')'' @ ext = show_nat m @ '')'' @ ext"
    by (simp add: candidate_name_def join_append)
  then show "n = m"
    using show_nat_inj by simp
qed

lemma finite_taken_candidates:
  "finite {m. exists fs (candidate_name out_dir stem ext m)}"
proof -
  have "{m. exists fs (candidate_name out_dir stem ext m)}
          \<subseteq> candidate_name out_dir stem ext -` (fst ` set fs)"
    by (auto simp: exists_def map_of_eq_None_iff)
  moreover have "finite (candidate_name out_dir stem ext -` (fst ` set fs))"
    by (rule finite_vimageI) (auto intro: injI candidate_name_inj)
  ultimately show ?thesis
    by (rule finite_subset)
qed

function free_candidate :: "fs \<Rightarrow> string \<Rightarrow> string \<Rightarrow> string \<Rightarrow> nat \<Rightarrow> string" where
  \<comment> \<open>the \<open>while os.path.exists(candidate)\<close> loop, entered with counter \<open>n\<close>\<close>
  "free_candidate fs out_dir stem ext n =
     (let candidate = candidate_name out_dir stem ext n in
        if exists fs candidate then free_candidate fs out_dir stem ext (n + 1)
        else candidate)"
  by pat_completeness auto
termination
proof (relation "measure (\<lambda>(fs, out_dir, stem, ext, n).
          card {m. n \<le> m \<and> exists fs (candidate_name out_dir stem ext m)})", goal_cases)
  case 1
  show ?case by simp
next
  case (2 fs out_dir stem ext n candidate)
  let ?A = "\<lambda>k. {m. k \<le> m \<and> exists fs (candidate_name out_dir stem ext m)}"
  have fin: "finite (?A n)"
    by (rule finite_subset [OF _ finite_taken_candidates [of fs out_dir stem ext]]) auto
  have mem: "n \<in> ?A n" and nmem: "n \<notin> ?A (n + 1)"
    using 2 by auto
  have "?A (n + 1) \<subseteq> ?A n"
    by auto
  moreover have "?A (n + 1) \<noteq> ?A n"
    using mem nmem by blast
  ultimately have "?A (n + 1) \<subset> ?A n"
    by (rule psubsetI)
  then have "card (?A (n + 1)) < card (?A n)"
    using fin by (rule psubset_card_mono [rotated])
  then show ?case by simp
qed

declare free_candidate.simps [simp del]

definition compute_normalized_output ::
  "env \<Rightarrow> fs \<Rightarrow> string \<Rightarrow> string \<Rightarrow> string \<Rightarrow> error + (string \<times> fs)" where
  \<comment> \<open>returns \<open>dst\<close> and the file system after \<open>os.makedirs\<close>\<close>
  "compute_normalized_output E fs root_folder out_folder media_path =
     (let src_dir = dirname media_path in
        case relpath (cwd E) src_dir root_folder of
          Inl e \<Rightarrow> Inl e
        | Inr rel_dir \<Rightarrow>
            (let base_name = basename media_path;
                 (base, last_ext) = collapse_extensions base_name;
                 sniff = sniff_type fs media_path;
                 target_ext = (case sniff of
                                 Some (k, x) \<Rightarrow> x
                               | None \<Rightarrow> if last_ext \<noteq> [] then lower (drop 1 last_ext) else []);
                 desired_name = (if target_ext \<noteq> [] then base @ ''.'' @ target_ext else base);
                 out_dir = join out_folder rel_dir
             in
               case makedirs fs out_dir of
                 Inl e \<Rightarrow> Inl e
               | Inr fs1 \<Rightarrow>
                   (let dst = join out_dir desired_name in
                      if exists fs1 dst then
                        (let (stem, ext) = splitext desired_name
                         in Inr (free_candidate fs1 out_dir stem ext 1, fs1))
                      else Inr (dst, fs1))))"

definition copy_media_to_output ::
  "env \<Rightarrow> fs \<Rightarrow> string \<Rightarrow> string \<Rightarrow> string \<Rightarrow> error + (string \<times> fs)" where
  "copy_media_to_output E fs root_folder out_folder media_path =
     (case compute_normalized_output E fs root_folder out_folder media_path of
        Inl e \<Rightarrow> Inl e
      | Inr (dst, fs1) \<Rightarrow>
          if \<not> exists fs1 dst then
            (case copy2 fs1 media_path dst of
               Inl e \<Rightarrow> Inl e
             | Inr fs2 \<Rightarrow> Inr (dst, fs2))
          else Inr (dst, fs1))"

section \<open>The run over a folder\<close>

definition EXCLUDE_JSON_BASE :: "string list" where
  "EXCLUDE_JSON_BASE = [''metadata'', ''shared_album_comments'']"

fun collect :: "(error + 'a list) list \<Rightarrow> error + 'a list" where
  \<comment> \<open>the results of a loop that stops at the first exception\<close>
  "collect [] = Inr []"
| "collect (Inl e # rs) = Inl e"
| "collect (Inr xs # rs) = (case collect rs of Inl e \<Rightarrow> Inl e | Inr ys \<Rightarrow> Inr (xs @ ys))"

fun get_sidecars :: "nat \<Rightarrow> fs \<Rightarrow> string \<Rightarrow> string \<Rightarrow> error + (string \<times> string option) list" where
  \<comment> \<open>the first argument is the depth of recursion the interpreter still allows\<close>
  "get_sidecars 0 fs folder edited_word = Inl RecursionError"
| "get_sidecars (Suc d) fs folder edited_word =
     (case scandir fs folder of
        Inl e \<Rightarrow> Inl e
      | Inr es \<Rightarrow>
          collect (map (\<lambda>(name, p).
                     if is_dir fs p then get_sidecars d fs p edited_word
                     else if is_file fs p then
                       (let (base, ext) = splitext name in
                          if lower ext = ''.json'' \<and> base \<notin> set EXCLUDE_JSON_BASE then
                            (case search_media fs folder base edited_word of
                               Inl e \<Rightarrow> Inl e
                             | Inr media \<Rightarrow> Inr [(p, media)])
                          else Inr [])
                     else Inr []) es))"

text \<open>
  The variables of \<open>process_folder\<close> that the loop updates, with the file system.
  \<open>live_log\<close> is bookkeeping of the model, not a variable of the program: the source
  path of each companion that reaches the copy and the metadata write of the
  live-photo branch, with the exit code of that write, in the order they happen.
\<close>

record run =
  files :: fs
  success :: nat
  failed :: nat
  linked_live :: nat
  seen_live :: "string set"
  live_log :: "(string \<times> int) list"

definition link_live :: "env \<Rightarrow> string \<Rightarrow> string \<Rightarrow> meta \<Rightarrow> string \<Rightarrow> run \<Rightarrow> error + run" where
  \<comment> \<open>the body of \<open>if live_path and live_path not in seen_live\<close>\<close>
  "link_live E root_folder out_folder m live_path st =
     (case copy_media_to_output E (files st) root_folder out_folder live_path of
        Inl e \<Rightarrow> Inl e
      | Inr (out_live, fs1) \<Rightarrow>
          (case apply_metadata_and_fs_times E fs1 out_live m of
             Inl e \<Rightarrow> Inl e
           | Inr (rc2, log2, fs2) \<Rightarrow>
               if rc2 \<noteq> 0 then
                 Inr (st\<lparr>files := fs2, live_log := live_log st @ [(live_path, rc2)]\<rparr>)
               else
                 Inr (st\<lparr>files := fs2,
                         linked_live := linked_live st + 1,
                         seen_live := insert live_path (seen_live st),
                         live_log := live_log st @ [(live_path, rc2)]\<rparr>)))"

definition process_live :: "env \<Rightarrow> string \<Rightarrow> string \<Rightarrow> meta \<Rightarrow> string \<Rightarrow> run \<Rightarrow> error + run" where
  \<comment> \<open>the live-photo part of the loop body, for the media file of the unit\<close>
  "process_live E root_folder out_folder m media_path st =
     (case sniff_type (files st) media_path of
        None \<Rightarrow> Inr st
      | Some kind \<Rightarrow>
          if fst kind \<in> set [''mov'', ''mp4''] then Inr st
          else
            (let (stem, x) = splitext (basename media_path);
                 folder = dirname media_path
             in
               case find_live_video_partner (files st) folder stem of
                 Inl e \<Rightarrow> Inl e
               | Inr None \<Rightarrow> Inr st
               | Inr (Some live_path) \<Rightarrow>
                   if live_path \<noteq> [] \<and> live_path \<notin> seen_live st
                   then link_live E root_folder out_folder m live_path st
                   else Inr st))"

definition process_unit ::
  "env \<Rightarrow> string \<Rightarrow> string \<Rightarrow> string \<times> string option \<Rightarrow> run \<Rightarrow> error + run" where
  \<comment> \<open>one pass of the loop body of \<open>process_folder\<close>\<close>
  "process_unit E root_folder out_folder unit st =
     (case unit of (json_path, media) \<Rightarrow>
        (case media of
           None \<Rightarrow> Inr (st\<lparr>failed := failed st + 1\<rparr>)
         | Some media_path \<Rightarrow>
             if media_path = [] then Inr (st\<lparr>failed := failed st + 1\<rparr>)
             else
               (case copy_media_to_output E (files st) root_folder out_folder media_path of
                  Inl e \<Rightarrow> Inl e
                | Inr (out_media, fs1) \<Rightarrow>
                    (case extract_metadata E fs1 json_path of
                       Inl e \<Rightarrow> Inl e
                     | Inr m \<Rightarrow>
                         (case apply_metadata_and_fs_times E fs1 out_media m of
                            Inl e \<Rightarrow> Inl e
                          | Inr (rc, log, fs2) \<Rightarrow>
                              process_live E root_folder out_folder m media_path
                                (if rc \<noteq> 0 then st\<lparr>files := fs2\<rparr>
                                 else st\<lparr>files := fs2, success := success st + 1\<rparr>))))))"

fun process_units ::
  "env \<Rightarrow> string \<Rightarrow> string \<Rightarrow> (string \<times> string option) list \<Rightarrow> run \<Rightarrow> error + run" where
  \<comment> \<open>the \<open>for\<close> loop: an exception in one pass ends the run\<close>
  "process_units E root_folder out_folder [] st = Inr st"
| "process_units E root_folder out_folder (u # us) st =
     (case process_unit E root_folder out_folder u st of
        Inl e \<Rightarrow> Inl e
      | Inr st' \<Rightarrow> process_units E root_folder out_folder us st')"

definition start :: "fs \<Rightarrow> run" where
  "start fs = \<lparr>files = fs, success = 0, failed = 0, linked_live = 0, seen_live = {},
               live_log = []\<rparr>"

definition process_folder :: "env \<Rightarrow> fs \<Rightarrow> string \<Rightarrow> string \<Rightarrow> string \<Rightarrow> error + run" where
  "process_folder E fs root_folder edited_word out_folder =
     (case get_sidecars (recursion_limit E) fs root_folder edited_word of
        Inl e \<Rightarrow> Inl e
      | Inr sidecars \<Rightarrow> process_units E root_folder out_folder sidecars (start fs))"

section \<open>Definitions for the properties\<close>

text \<open>
  Predicates that the statements below use, and the small file systems and
  environments at which they are evaluated.
\<close>

subsection \<open>A sample host\<close>

definition pad2 :: "nat \<Rightarrow> string" where
  "pad2 n = [char_of (48 + n div 10), char_of (48 + n mod 10)]"

definition sample_strftime :: "int \<Rightarrow> error + string" where
  \<comment> \<open>a host on UTC whose clock covers the first day of 1970\<close>
  "sample_strftime t =
     (if 0 \<le> t \<and> t < 86400 then
        Inr (''1970:01:01 '' @ pad2 (nat t div 3600) @ '':'' @ pad2 (nat t div 60 mod 60)
             @ '':'' @ pad2 (nat t mod 60))
      else Inl OverflowError)"

definition zero_json :: bytes where
  \<open>zero_json = ''{"photoTakenTime": {"timestamp": "0"}}''\<close>

definition alt_json :: bytes where
  \<open>alt_json = ''{"geoData": {"altitude": 5}}''\<close>

definition plain_json :: bytes where
  \<open>plain_json = ''{"photoTakenTime": {"timestamp": "7"}}''\<close>

definition odd_json :: bytes where
  \<open>odd_json = ''{"photoTakenTime": {"timestamp": "soon"}, "geoData": null}''\<close>

definition list_json :: bytes where
  \<open>list_json = ''[]''\<close>

definition cut_json :: bytes where
  \<open>cut_json = ''{"photoTakenTime": {"timestamp": "7"''\<close>

definition sample_json_load :: "bytes \<Rightarrow> error + json" where
  \<comment> \<open>\<open>json.load\<close> on the descriptors of the samples; it raises on anything else\<close>
  "sample_json_load bs =
     (if bs = zero_json then
        Inr (JObj [(''photoTakenTime'', JObj [(''timestamp'', JStr ''0'')])])
      else if bs = alt_json then
        Inr (JObj [(''geoData'', JObj [(''altitude'', JInt 5)])])
      else if bs = plain_json then
        Inr (JObj [(''photoTakenTime'', JObj [(''timestamp'', JStr ''7'')])])
      else if bs = odd_json then
        Inr (JObj [(''photoTakenTime'', JObj [(''timestamp'', JStr ''soon'')]),
                   (''geoData'', JNull)])
      else if bs = list_json then Inr (JArr [])
      else Inl JSONDecodeError)"

definition tool_ok :: "string list \<Rightarrow> fs \<Rightarrow> (int \<times> string \<times> fs) option" where
  \<comment> \<open>a tool that reports success and leaves the files as they are\<close>
  "tool_ok cmd fs = Some (0, ''    1 image files updated'', fs)"

definition tool_fail :: "string list \<Rightarrow> fs \<Rightarrow> (int \<times> string \<times> fs) option" where
  \<comment> \<open>a tool that always exits with code 1\<close>
  "tool_fail cmd fs = Some (1, ''Error: File format error'', fs)"

definition sample_env :: "(string list \<Rightarrow> fs \<Rightarrow> (int \<times> string \<times> fs) option) \<Rightarrow> env" where
  "sample_env tool =
     \<lparr>cwd = ''/home/u'', json_load = sample_json_load, strftime_local = sample_strftime,
      subprocess_run = tool, recursion_limit = 1000\<rparr>"

definition jpeg_bytes :: bytes where
  "jpeg_bytes = [CHR 0xff, CHR 0xd8, CHR 0xff, CHR 0xe0]"

definition mov_bytes :: bytes where
  "mov_bytes = [CHR 0x00, CHR 0x00, CHR 0x00, CHR 0x14] @ ''ftypqt  '' @ ''moov''"

subsection \<open>For the content sniffer\<close>

definition known_signature :: "bytes \<Rightarrow> bool" where
  \<comment> \<open>the header starts with one of the signatures the sniffer recognizes\<close>
  "known_signature h =
     (take 2 h = JPEG_SOI \<or> take 8 h = PNG_SIG \<or> take 4 h = TIFF_LE \<or> take 4 h = TIFF_BE
      \<or> (12 \<le> length h \<and> slice h 4 8 = FTYP))"

definition sniff_samples :: fs where
  "sniff_samples =
     [(''d'', Dir),
      (''d/empty'', File [] True 0 0),
      (''d/one'', File [CHR 0xff] True 0 0),
      (''d/locked.jpg'', File [CHR 0xff, CHR 0xd8, CHR 0xff] False 0 0),
      (''d/notes.txt'', File ''hello, world'' True 0 0)]"

subsection \<open>For the metadata write\<close>

definition date_directive :: "string \<Rightarrow> bool" where
  \<comment> \<open>one of the six arguments that the timestamp adds\<close>
  "date_directive a =
     (startswith a ''-DateTimeOriginal='' \<or> startswith a ''-CreateDate=''
      \<or> startswith a ''-ModifyDate='' \<or> a = ''-P''
      \<or> a = ''-FileCreateDate<CreateDate'' \<or> a = ''-FileModifyDate<ModifyDate'')"

definition gps_args :: "meta \<Rightarrow> string list" where
  \<comment> \<open>the arguments that the position and the altitude add, in order\<close>
  "gps_args m =
     (if valid_num (latitude m) \<and> valid_num (longitude m)
      then [''-GPSLatitude='' @ py_str (latitude m), ''-GPSLongitude='' @ py_str (longitude m)]
      else [])
     @ (if valid_num (altitude m) then [''-GPSAltitude='' @ py_str (altitude m)] else [])"

definition meta_files :: fs where
  "meta_files =
     [(''t'', Dir),
      (''t/zero.json'', File zero_json True 100 100),
      (''t/alt.json'', File alt_json True 100 100),
      (''o'', Dir),
      (''o/zero.jpg'', File jpeg_bytes True 5 5)]"

subsection \<open>For the output placer\<close>

definition place_files :: fs where
  \<comment> \<open>a source tree with one picture in the root and one of the same name in an album\<close>
  "place_files =
     [(''t'', Dir),
      (''t/a.jpg'', File jpeg_bytes True 5 5),
      (''t/a.jpeg'', File (jpeg_bytes @ ''other'') True 6 6)]"

definition placed_once :: fs where
  "placed_once = place_files @ [(''o/.'', Dir), (''o/./a.jpg'', File jpeg_bytes True 5 5)]"

subsection \<open>For the run\<close>

definition linked_paths :: "(string \<times> int) list \<Rightarrow> string list" where
  \<comment> \<open>the companions whose metadata write returned 0\<close>
  "linked_paths l = map fst (filter (\<lambda>(p, rc). rc = 0) l)"

definition run_files :: fs where
  \<comment> \<open>two descriptors that resolve to one picture, which has a video beside it; a
      picture with a good descriptor; one with a cut-off descriptor; one whose
      descriptor is a list\<close>
  "run_files =
     [(''t'', Dir),
      (''t/IMG_1.jpg'', File jpeg_bytes True 5 5),
      (''t/IMG_1.jpg.json'', File plain_json True 9 9),
      (''t/IMG_1.png.json'', File plain_json True 9 9),
      (''t/IMG_1.mov'', File mov_bytes True 5 5),
      (''t/IMG_2.jpg'', File jpeg_bytes True 5 5),
      (''t/IMG_2.jpg.json'', File odd_json True 9 9),
      (''t/IMG_3.jpg'', File jpeg_bytes True 5 5),
      (''t/IMG_3.jpg.json'', File cut_json True 9 9),
      (''t/IMG_4.jpg'', File jpeg_bytes True 5 5),
      (''t/IMG_4.jpg.json'', File list_json True 9 9),
      (''t/IMG_5.jpg.json'', File plain_json True 9 9)]"

definition live_files :: fs where
  \<comment> \<open>a picture with a video beside it, and two descriptors named after the picture\<close>
  "live_files =
     [(''t'', Dir),
      (''t/IMG_1.jpg'', File jpeg_bytes True 5 5),
      (''t/IMG_1.jpg.json'', File plain_json True 9 9),
      (''t/IMG_1.png.json'', File plain_json True 9 9),
      (''t/IMG_1.mov'', File mov_bytes True 5 5)]"

definition cut_files :: fs where
  \<comment> \<open>a picture whose descriptor is cut off, listed before a picture with a good one\<close>
  "cut_files =
     [(''t'', Dir),
      (''t/IMG_3.jpg'', File jpeg_bytes True 5 5),
      (''t/IMG_3.jpg.json'', File cut_json True 9 9),
      (''t/IMG_2.jpg'', File jpeg_bytes True 5 5),
      (''t/IMG_2.jpg.json'', File plain_json True 9 9)]"

definition one_picture :: fs where
  "one_picture =
     [(''t'', Dir),
      (''t/IMG_2.jpg'', File jpeg_bytes True 5 5),
      (''t/IMG_2.jpg.json'', File plain_json True 9 9)]"

definition shared_video_units :: "(string \<times> string option) list" where
  "shared_video_units =
     [(''t/IMG_1.jpg.json'', Some ''t/IMG_1.jpg''), (''t/IMG_1.png.json'', Some ''t/IMG_1.jpg'')]"

definition live_inv :: "run \<Rightarrow> bool" where
  \<comment> \<open>what the loop keeps true of the companions: the seen set and the counter are
      the companions whose write returned 0, each once, and none of them was handled
      again after that\<close>
  "live_inv st =
     (distinct (linked_paths (live_log st))
      \<and> seen_live st = set (linked_paths (live_log st))
      \<and> linked_live st = length (linked_paths (live_log st))
      \<and> (\<forall>xs p ys. live_log st = xs @ (p, 0) # ys \<longrightarrow> p \<notin> fst ` set ys))"

definition paths_under :: "string \<Rightarrow> fs \<Rightarrow> string list" where
  \<comment> \<open>the paths of the table that start with the given prefix\<close>
  "paths_under prefix fs = filter (\<lambda>p. startswith p prefix) (map fst fs)"

subsection \<open>For the media resolver\<close>

definition edited_only :: fs where
  \<comment> \<open>a directory that holds one file\<close>
  "edited_only = [(''d'', Dir), (''d/IMG_2-edited.jpg'', File jpeg_bytes True 5 5)]"

section \<open>The content sniffer never raises\<close>

lemma short_header_unknown: "length h < 2 \<Longrightarrow> \<not> known_signature h"
  by (auto simp: known_signature_def JPEG_SOI_def PNG_SIG_def TIFF_LE_def TIFF_BE_def)

lemma sniff_type_header:
  "open_read fs path 32 = Inr h \<Longrightarrow> (sniff_type fs path = None) = (\<not> known_signature h)"
  by (auto simp: sniff_type_def known_signature_def Let_def JPEG_SOI_def PNG_SIG_def
        TIFF_LE_def TIFF_BE_def)

text \<open>
  C8. The sniffer is total and never raises: whatever goes wrong when the file is
  opened or read (the path is missing, is a directory, or may not be read) ends in
  \<open>None\<close>; so does an empty file, a file of fewer than two bytes, and every header
  that starts with none of the known signatures. The result is \<open>None\<close> exactly in
  these cases, and otherwise one of the six known kinds.
\<close>

theorem sniff_type_total:
  "(\<forall>e. open_read fs path 32 = Inl e \<longrightarrow> sniff_type fs path = None)
   \<and> (\<forall>h. open_read fs path 32 = Inr h \<longrightarrow>
          (sniff_type fs path = None) = (\<not> known_signature h))
   \<and> (\<forall>h. open_read fs path 32 = Inr h \<longrightarrow> length h < 2 \<longrightarrow> sniff_type fs path = None)
   \<and> (\<not> is_file fs path \<longrightarrow> sniff_type fs path = None)
   \<and> (\<forall>c a m. map_of fs path = Some (File c False a m) \<longrightarrow> sniff_type fs path = None)
   \<and> sniff_type fs path \<in> set [None, Some (''jpeg'', ''jpg''), Some (''png'', ''png''),
         Some (''tiff'', ''tif''), Some (''heic'', ''heic''), Some (''mov'', ''mov''),
         Some (''mp4'', ''mp4'')]"
proof (intro conjI allI impI)
  fix e assume "open_read fs path 32 = Inl e"
  then show "sniff_type fs path = None" by (simp add: sniff_type_def)
next
  fix h assume "open_read fs path 32 = Inr h"
  then show "(sniff_type fs path = None) = (\<not> known_signature h)"
    by (rule sniff_type_header)
next
  fix h assume "open_read fs path 32 = Inr h" and "length h < 2"
  then show "sniff_type fs path = None"
    using sniff_type_header short_header_unknown by blast
next
  assume "\<not> is_file fs path"
  then show "sniff_type fs path = None"
    by (auto simp: is_file_def sniff_type_def open_read_def split: option.splits node.splits)
next
  fix c a m assume "map_of fs path = Some (File c False a m)"
  then show "sniff_type fs path = None"
    by (simp add: sniff_type_def open_read_def)
next
  show "sniff_type fs path \<in> set [None, Some (''jpeg'', ''jpg''), Some (''png'', ''png''),
         Some (''tiff'', ''tif''), Some (''heic'', ''heic''), Some (''mov'', ''mov''),
         Some (''mp4'', ''mp4'')]"
    by (simp add: sniff_type_def Let_def split: sum.splits)
qed

theorem sniff_type_total_witness:
  "sniff_type sniff_samples ''d/missing'' = None
   \<and> sniff_type sniff_samples ''d'' = None
   \<and> sniff_type sniff_samples ''d/locked.jpg'' = None
   \<and> sniff_type sniff_samples ''d/empty'' = None
   \<and> sniff_type sniff_samples ''d/one'' = None
   \<and> sniff_type sniff_samples ''d/notes.txt'' = None"
proof -
  have 1: "open_read sniff_samples ''d/missing'' 32 = Inl FileNotFoundError"
    by (simp add: open_read_def sniff_samples_def)
  have 2: "\<not> is_file sniff_samples ''d''"
    by (simp add: is_file_def sniff_samples_def)
  have 3: "map_of sniff_samples ''d/locked.jpg'' = Some (File [CHR 0xff, CHR 0xd8, CHR 0xff] False 0 0)"
    by (simp add: sniff_samples_def)
  have 4: "open_read sniff_samples ''d/empty'' 32 = Inr []"
    by (simp add: open_read_def sniff_samples_def)
  have 5: "open_read sniff_samples ''d/one'' 32 = Inr [CHR 0xff]"
    by (simp add: open_read_def sniff_samples_def)
  have 6: "open_read sniff_samples ''d/notes.txt'' 32 = Inr ''hello, world''"
    by (simp add: open_read_def sniff_samples_def)
  have 7: "\<not> known_signature ''hello, world''"
    by (simp add: known_signature_def JPEG_SOI_def PNG_SIG_def TIFF_LE_def TIFF_BE_def
          FTYP_def slice_def)
  show ?thesis
    using sniff_type_total [of sniff_samples "''d/missing''"]
      sniff_type_total [of sniff_samples "''d''"]
      sniff_type_total [of sniff_samples "''d/locked.jpg''"]
      sniff_type_total [of sniff_samples "''d/empty''"]
      sniff_type_total [of sniff_samples "''d/one''"]
      sniff_type_total [of sniff_samples "''d/notes.txt''"]
      1 2 3 4 5 6 7
    by simp
qed

section \<open>The metadata write\<close>

lemma build_exiftool_args_shape:
  "build_exiftool_args E fs target m =
     (case (case timestamp m of
              Some t \<Rightarrow> if t \<noteq> 0 then map_sum id Some (fmt_ts E t) else Inr None
            | None \<Rightarrow> Inr None) of
        Inl e \<Rightarrow> Inl e
      | Inr d \<Rightarrow>
          Inr ((if is_video fs target then [''-api'', ''QuickTimeUTC=1''] else [])
               @ [''-overwrite_original'']
               @ (case d of
                    Some dt \<Rightarrow> [''-DateTimeOriginal='' @ dt, ''-CreateDate='' @ dt,
                                ''-ModifyDate='' @ dt, ''-P'', ''-FileCreateDate<CreateDate'',
                                ''-FileModifyDate<ModifyDate'']
                  | None \<Rightarrow> [])
               @ gps_args m))"
  by (auto simp: build_exiftool_args_def gps_args_def Let_def split: option.splits sum.splits)

lemma gps_args_not_dates: "\<not> list_ex date_directive (gps_args m)"
  by (simp add: gps_args_def date_directive_def startswith_def)

text \<open>
  C10. A timestamp of 0 is treated exactly as an absent one: the arguments built for
  the tool are the same, none of them is a date directive, and applying the metadata
  runs the tool on them and then leaves the file times as the tool left them.
\<close>

theorem zero_timestamp_as_absent:
  "build_exiftool_args E fs target (m\<lparr>timestamp := Some 0\<rparr>)
     = build_exiftool_args E fs target (m\<lparr>timestamp := None\<rparr>)
   \<and> apply_metadata_and_fs_times E fs target (m\<lparr>timestamp := Some 0\<rparr>)
     = apply_metadata_and_fs_times E fs target (m\<lparr>timestamp := None\<rparr>)
   \<and> (\<exists>args. build_exiftool_args E fs target (m\<lparr>timestamp := Some 0\<rparr>) = Inr args
         \<and> \<not> list_ex date_directive args
         \<and> apply_metadata_and_fs_times E fs target (m\<lparr>timestamp := Some 0\<rparr>)
             = Inr (run_exiftool E args target fs))"
proof -
  let ?m0 = "m\<lparr>timestamp := Some 0\<rparr>"
  let ?args = "(if is_video fs target then [''-api'', ''QuickTimeUTC=1''] else [])
               @ [''-overwrite_original''] @ gps_args m"
  have g: "gps_args ?m0 = gps_args m" "gps_args (m\<lparr>timestamp := None\<rparr>) = gps_args m"
    by (simp_all add: gps_args_def)
  have b0: "build_exiftool_args E fs target ?m0 = Inr ?args"
    by (simp add: build_exiftool_args_shape g)
  have bn: "build_exiftool_args E fs target (m\<lparr>timestamp := None\<rparr>) = Inr ?args"
    by (simp add: build_exiftool_args_shape g)
  have nd: "\<not> list_ex date_directive ?args"
    using gps_args_not_dates [of m] by (simp add: date_directive_def startswith_def)
  have a0: "apply_metadata_and_fs_times E fs target ?m0 = Inr (run_exiftool E ?args target fs)"
    by (simp add: apply_metadata_and_fs_times_def b0 split: prod.splits)
  have an: "apply_metadata_and_fs_times E fs target (m\<lparr>timestamp := None\<rparr>)
              = Inr (run_exiftool E ?args target fs)"
    by (simp add: apply_metadata_and_fs_times_def bn split: prod.splits)
  show ?thesis
    using b0 bn nd a0 an by simp
qed

theorem zero_timestamp_as_absent_witness:
  "extract_metadata (sample_env tool_ok) meta_files ''t/zero.json''
     = Inr \<lparr>timestamp = Some 0, latitude = JNull, longitude = JNull, altitude = JNull\<rparr>
   \<and> build_exiftool_args (sample_env tool_ok) meta_files ''o/zero.jpg''
        \<lparr>timestamp = Some 0, latitude = JNull, longitude = JNull, altitude = JNull\<rparr>
     = Inr [''-overwrite_original'']
   \<and> apply_metadata_and_fs_times (sample_env tool_ok) meta_files ''o/zero.jpg''
        \<lparr>timestamp = Some 0, latitude = JNull, longitude = JNull, altitude = JNull\<rparr>
     = Inr (0, ''    1 image files updated'', meta_files)"
proof -
  let ?m = "\<lparr>timestamp = Some 0, latitude = JNull, longitude = JNull, altitude = JNull\<rparr>"
  have x: "extract_metadata (sample_env tool_ok) meta_files ''t/zero.json'' = Inr ?m"
    by (simp add: extract_metadata_def read_all_def meta_files_def sample_env_def
          sample_json_load_def is_dict_def timestamp_of_def dict_get_def truthy_def
          py_int_def py_int_str_def is_int_space_def digits_ok_def is_digit_def
          digits_val_def)
  have n: "build_exiftool_args (sample_env tool_ok) meta_files ''o/zero.jpg''
             (?m\<lparr>timestamp := None\<rparr>) = Inr [''-overwrite_original'']"
    by (simp add: build_exiftool_args_shape gps_args_def valid_num_def is_video_def
          sniff_type_def open_read_def meta_files_def jpeg_bytes_def JPEG_SOI_def)
  have r: "run_exiftool (sample_env tool_ok) [''-overwrite_original''] ''o/zero.jpg'' meta_files
             = (0, ''    1 image files updated'', meta_files)"
    by (simp add: run_exiftool_def sample_env_def tool_ok_def)
  show ?thesis
    using zero_timestamp_as_absent [of "sample_env tool_ok" meta_files "''o/zero.jpg''" ?m] x n r
    by auto
qed

lemma gps_latitude_in_args:
  "build_exiftool_args E fs target m = Inr args \<Longrightarrow>
     list_ex (\<lambda>a. startswith a ''-GPSLatitude='') args
       = (valid_num (latitude m) \<and> valid_num (longitude m))"
  by (auto simp: build_exiftool_args_shape gps_args_def startswith_def
        split: option.splits sum.splits if_splits)

lemma gps_longitude_in_args:
  "build_exiftool_args E fs target m = Inr args \<Longrightarrow>
     list_ex (\<lambda>a. startswith a ''-GPSLongitude='') args
       = (valid_num (latitude m) \<and> valid_num (longitude m))"
  by (auto simp: build_exiftool_args_shape gps_args_def startswith_def
        split: option.splits sum.splits if_splits)

lemma gps_altitude_in_args:
  "build_exiftool_args E fs target m = Inr args \<Longrightarrow>
     list_ex (\<lambda>a. startswith a ''-GPSAltitude='') args = valid_num (altitude m)"
  by (auto simp: build_exiftool_args_shape gps_args_def startswith_def
        split: option.splits sum.splits if_splits)

lemma gps_values_in_args:
  "build_exiftool_args E fs target m = Inr args \<Longrightarrow> set (gps_args m) \<subseteq> set args"
  by (auto simp: build_exiftool_args_shape split: option.splits sum.splits if_splits)

text \<open>
  C6, as the code has it. The arguments built for the tool hold the latitude and the
  longitude directives exactly when both values are valid (not \<open>None\<close>, and not
  rendered as the empty string), and then with the values as Python prints them. The
  altitude directive is there exactly when the altitude is valid, whether or not
  there is a position.
\<close>

theorem gps_directives:
  "build_exiftool_args E fs target m = Inr args \<Longrightarrow>
     (list_ex (\<lambda>a. startswith a ''-GPSLatitude='') args
        = (valid_num (latitude m) \<and> valid_num (longitude m)))
   \<and> (list_ex (\<lambda>a. startswith a ''-GPSLongitude='') args
        = (valid_num (latitude m) \<and> valid_num (longitude m)))
   \<and> (list_ex (\<lambda>a. startswith a ''-GPSAltitude='') args = valid_num (altitude m))
   \<and> set (gps_args m) \<subseteq> set args"
proof -
  assume b: "build_exiftool_args E fs target m = Inr args"
  show ?thesis
    by (simp add: gps_latitude_in_args [OF b] gps_longitude_in_args [OF b]
          gps_altitude_in_args [OF b] gps_values_in_args [OF b])
qed

theorem gps_directives_witness:
  "build_exiftool_args (sample_env tool_ok) meta_files ''o/zero.jpg''
      \<lparr>timestamp = None, latitude = JStr ''48.5'', longitude = JInt 2, altitude = JNull\<rparr>
     = Inr [''-overwrite_original'', ''-GPSLatitude=48.5'', ''-GPSLongitude=2'']
   \<and> list_ex (\<lambda>a. startswith a ''-GPSLatitude='')
        [''-overwrite_original'', ''-GPSLatitude=48.5'', ''-GPSLongitude=2'']
   \<and> \<not> list_ex (\<lambda>a. startswith a ''-GPSAltitude='')
        [''-overwrite_original'', ''-GPSLatitude=48.5'', ''-GPSLongitude=2'']"
proof -
  let ?m = "\<lparr>timestamp = None, latitude = JStr ''48.5'', longitude = JInt 2, altitude = JNull\<rparr>"
  let ?args = "[''-overwrite_original'', ''-GPSLatitude=48.5'', ''-GPSLongitude=2'']"
  have s: "py_str (JInt 2) = ''2''"
    by code_simp
  have v: "valid_num (latitude ?m)" "valid_num (longitude ?m)" "\<not> valid_num (altitude ?m)"
    by (simp_all add: valid_num_def s) (simp add: py_str_def)
  have b: "build_exiftool_args (sample_env tool_ok) meta_files ''o/zero.jpg'' ?m = Inr ?args"
    using v
    by (simp add: build_exiftool_args_shape gps_args_def s is_video_def sniff_type_def
          open_read_def meta_files_def jpeg_bytes_def JPEG_SOI_def)
       (simp add: py_str_def)
  show ?thesis
    using gps_directives [OF b] v b by simp
qed

text \<open>
  The claim as stated fails: a descriptor that gives an altitude and no position gets
  the altitude directive all the same.
\<close>

theorem altitude_without_position:
  "extract_metadata (sample_env tool_ok) meta_files ''t/alt.json''
     = Inr \<lparr>timestamp = None, latitude = JNull, longitude = JNull, altitude = JInt 5\<rparr>
   \<and> build_exiftool_args (sample_env tool_ok) meta_files ''o/zero.jpg''
        \<lparr>timestamp = None, latitude = JNull, longitude = JNull, altitude = JInt 5\<rparr>
     = Inr [''-overwrite_original'', ''-GPSAltitude=5'']"
proof -
  have s: "py_str (JInt 5) = ''5''"
    by code_simp
  have x: "extract_metadata (sample_env tool_ok) meta_files ''t/alt.json''
             = Inr \<lparr>timestamp = None, latitude = JNull, longitude = JNull, altitude = JInt 5\<rparr>"
    by (simp add: extract_metadata_def read_all_def meta_files_def sample_env_def
          sample_json_load_def is_dict_def timestamp_of_def dict_get_def truthy_def
          zero_json_def alt_json_def)
  have b: "build_exiftool_args (sample_env tool_ok) meta_files ''o/zero.jpg''
             \<lparr>timestamp = None, latitude = JNull, longitude = JNull, altitude = JInt 5\<rparr>
           = Inr [''-overwrite_original'', ''-GPSAltitude=5'']"
    by (simp add: build_exiftool_args_shape gps_args_def valid_num_def s is_video_def
          sniff_type_def open_read_def meta_files_def jpeg_bytes_def JPEG_SOI_def)
  show ?thesis
    using x b by simp
qed





section \<open>The output placer\<close>

lemma free_candidate_free: "\<not> exists fs (free_candidate fs out_dir stem ext n)"
proof (induction fs out_dir stem ext n rule: free_candidate.induct)
  case (1 fs out_dir stem ext n)
  then show ?case
    by (cases "exists fs (candidate_name out_dir stem ext n)")
       (simp_all add: free_candidate.simps [of fs out_dir stem ext n])
qed

lemma free_candidate_first:
  "\<exists>k\<ge>n. free_candidate fs out_dir stem ext n = candidate_name out_dir stem ext k
          \<and> (\<forall>j. n \<le> j \<and> j < k \<longrightarrow> exists fs (candidate_name out_dir stem ext j))"
proof (induction fs out_dir stem ext n rule: free_candidate.induct)
  case (1 fs out_dir stem ext n)
  show ?case
  proof (cases "exists fs (candidate_name out_dir stem ext n)")
    case False
    then have "free_candidate fs out_dir stem ext n = candidate_name out_dir stem ext n"
      by (simp add: free_candidate.simps [of fs out_dir stem ext n])
    then show ?thesis by auto
  next
    case True
    then have eq: "free_candidate fs out_dir stem ext n = free_candidate fs out_dir stem ext (n + 1)"
      by (simp add: free_candidate.simps [of fs out_dir stem ext n])
    from 1 [OF refl True] obtain k where k: "n + 1 \<le> k"
      "free_candidate fs out_dir stem ext (n + 1) = candidate_name out_dir stem ext k"
      "\<forall>j. n + 1 \<le> j \<and> j < k \<longrightarrow> exists fs (candidate_name out_dir stem ext j)"
      by blast
    have "\<forall>j. n \<le> j \<and> j < k \<longrightarrow> exists fs (candidate_name out_dir stem ext j)"
    proof (intro allI impI)
      fix j assume "n \<le> j \<and> j < k"
      then show "exists fs (candidate_name out_dir stem ext j)"
        using True k(3) by (cases "j = n") auto
    qed
    with k eq show ?thesis
      by (intro exI [of _ k]) auto
  qed
qed

lemma makedirs_map:
  "makedirs fs p = Inr fs1 \<Longrightarrow>
     map_of fs1 = (if exists fs p then map_of fs else (map_of fs)(p \<mapsto> Dir))"
  by (auto simp: makedirs_def exists_def update_conv' split: option.splits node.splits)

lemma makedirs_keeps:
  "makedirs fs p = Inr fs1 \<Longrightarrow> exists fs q \<Longrightarrow> map_of fs1 q = map_of fs q"
  by (auto simp: makedirs_map exists_def)

lemma makedirs_file:
  "makedirs fs p = Inr fs1 \<Longrightarrow> map_of fs1 q = Some (File c r a m) \<Longrightarrow>
     map_of fs q = Some (File c r a m)"
  by (auto simp: makedirs_map split: if_splits)

lemma makedirs_grows: "makedirs fs p = Inr fs1 \<Longrightarrow> exists fs q \<Longrightarrow> exists fs1 q"
  by (auto simp: makedirs_map exists_def)

lemma compute_normalized_output_free:
  "compute_normalized_output E fs root_folder out_folder media_path = Inr (dst, fs1) \<Longrightarrow>
     \<not> exists fs1 dst \<and> (\<exists>p. makedirs fs p = Inr fs1)"
  by (auto simp: compute_normalized_output_def Let_def free_candidate_free
        split: sum.splits prod.splits if_splits)

lemma copy2_fresh:
  "\<not> exists fs1 dst \<Longrightarrow> copy2 fs1 src dst = Inr fs2 \<Longrightarrow>
     is_file fs1 src \<and> map_of fs2 = (map_of fs1)(dst := map_of fs1 src)"
  by (auto simp: copy2_def is_dir_def is_file_def exists_def update_conv' Let_def
        split: option.splits node.splits if_splits)

lemma copy_media_to_output_fresh:
  assumes "copy_media_to_output E fs root_folder out_folder media_path = Inr (dst, fs')"
  shows "\<not> exists fs dst" and "is_file fs media_path"
    and "map_of fs' dst = map_of fs media_path"
    and "\<And>q. exists fs q \<Longrightarrow> map_of fs' q = map_of fs q"
proof -
  from assms obtain fs1 where
    c: "compute_normalized_output E fs root_folder out_folder media_path = Inr (dst, fs1)"
    by (auto simp: copy_media_to_output_def split: sum.splits prod.splits if_splits)
  from compute_normalized_output_free [OF c] obtain p where
    free: "\<not> exists fs1 dst" and mk: "makedirs fs p = Inr fs1"
    by blast
  from assms c free have cp: "copy2 fs1 media_path dst = Inr fs'"
    by (auto simp: copy_media_to_output_def split: sum.splits)
  from copy2_fresh [OF free cp] have
    src: "is_file fs1 media_path" and m: "map_of fs' = (map_of fs1)(dst := map_of fs1 media_path)"
    by auto
  show "\<not> exists fs dst"
    using free makedirs_grows [OF mk] by blast
  then have ne: "\<And>q. exists fs q \<Longrightarrow> q \<noteq> dst"
    by auto
  from src obtain c r a mt where f1: "map_of fs1 media_path = Some (File c r a mt)"
    by (auto simp: is_file_def split: option.splits node.splits)
  then have f: "map_of fs media_path = Some (File c r a mt)"
    using makedirs_file [OF mk] by blast
  then show "is_file fs media_path"
    by (simp add: is_file_def)
  show "map_of fs' dst = map_of fs media_path"
    using m f f1 by simp
  show "\<And>q. exists fs q \<Longrightarrow> map_of fs' q = map_of fs q"
    using m ne makedirs_keeps [OF mk] by simp
qed

lemma first_placement:
  "copy_media_to_output (sample_env tool_ok) place_files ''t'' ''o'' ''t/a.jpg''
     = Inr (''o/./a.jpg'', placed_once)"
  by code_simp

text \<open>
  C7. Destination names never collide. Of two placements made one after the other,
  each returns a path that did not exist before it, so the two destinations differ;
  the second placement leaves the first copy, and every file that was there before,
  as it was. The counter loop returns the first name \<open>stem(k)ext\<close>, counting up from
  where it starts, that does not exist.
\<close>

theorem destinations_never_collide:
  "copy_media_to_output E fs root_folder out_folder a = Inr (dst1, fs1) \<Longrightarrow>
   copy_media_to_output E fs1 root_folder out_folder b = Inr (dst2, fs2) \<Longrightarrow>
     dst1 \<noteq> dst2 \<and> \<not> exists fs dst1 \<and> \<not> exists fs1 dst2
     \<and> map_of fs2 dst1 = map_of fs a \<and> map_of fs2 dst2 = map_of fs1 b
     \<and> (\<forall>q. exists fs q \<longrightarrow> map_of fs2 q = map_of fs q)
     \<and> (\<exists>k\<ge>n. free_candidate fs' out_dir stem ext n = candidate_name out_dir stem ext k
            \<and> \<not> exists fs' (candidate_name out_dir stem ext k)
            \<and> (\<forall>j. n \<le> j \<and> j < k \<longrightarrow> exists fs' (candidate_name out_dir stem ext j)))"
proof -
  assume p1: "copy_media_to_output E fs root_folder out_folder a = Inr (dst1, fs1)"
    and p2: "copy_media_to_output E fs1 root_folder out_folder b = Inr (dst2, fs2)"
  note f1 = copy_media_to_output_fresh [OF p1]
  note f2 = copy_media_to_output_fresh [OF p2]
  have a: "is_file fs a"
    by (rule f1(2))
  then have ex1: "exists fs1 dst1"
    using f1(3) by (auto simp: exists_def is_file_def split: option.splits)
  have ne: "dst1 \<noteq> dst2"
    using ex1 f2(1) by auto
  have keep1: "map_of fs2 dst1 = map_of fs a"
    using f2(4) [OF ex1] f1(3) by simp
  have old: "\<forall>q. exists fs q \<longrightarrow> map_of fs2 q = map_of fs q"
  proof (intro allI impI)
    fix q assume q: "exists fs q"
    then have "map_of fs1 q = map_of fs q"
      by (rule f1(4))
    moreover from this q have "exists fs1 q"
      by (simp add: exists_def)
    ultimately show "map_of fs2 q = map_of fs q"
      using f2(4) by simp
  qed
  obtain k where k: "n \<le> k"
    "free_candidate fs' out_dir stem ext n = candidate_name out_dir stem ext k"
    "\<forall>j. n \<le> j \<and> j < k \<longrightarrow> exists fs' (candidate_name out_dir stem ext j)"
    using free_candidate_first [of n fs' out_dir stem ext] by blast
  have "\<not> exists fs' (candidate_name out_dir stem ext k)"
    using free_candidate_free [of fs' out_dir stem ext n] k(2) by simp
  with k have loop: "\<exists>k\<ge>n. free_candidate fs' out_dir stem ext n = candidate_name out_dir stem ext k
            \<and> \<not> exists fs' (candidate_name out_dir stem ext k)
            \<and> (\<forall>j. n \<le> j \<and> j < k \<longrightarrow> exists fs' (candidate_name out_dir stem ext j))"
    by blast
  show ?thesis
    using ne f1(1) f2(1) keep1 f2(3) old loop by blast
qed

theorem destinations_never_collide_witness:
  "copy_media_to_output (sample_env tool_ok) place_files ''t'' ''o'' ''t/a.jpg''
     = Inr (''o/./a.jpg'', placed_once)
   \<and> copy_media_to_output (sample_env tool_ok) placed_once ''t'' ''o'' ''t/a.jpeg''
     = Inr (''o/./a(1).jpg'',
            placed_once @ [(''o/./a(1).jpg'', File (jpeg_bytes @ ''other'') True 6 6)])
   \<and> map_of (placed_once @ [(''o/./a(1).jpg'', File (jpeg_bytes @ ''other'') True 6 6)])
        ''o/./a.jpg'' = Some (File jpeg_bytes True 5 5)
   \<and> free_candidate placed_once ''o/.'' ''a'' ''.jpg'' 1 = ''o/./a(1).jpg''"
proof -
  let ?E = "sample_env tool_ok"
  let ?fs2 = "placed_once @ [(''o/./a(1).jpg'', File (jpeg_bytes @ ''other'') True 6 6)]"
  have p2: "copy_media_to_output ?E placed_once ''t'' ''o'' ''t/a.jpeg''
              = Inr (''o/./a(1).jpg'', ?fs2)"
    by code_simp
  have src: "map_of place_files ''t/a.jpg'' = Some (File jpeg_bytes True 5 5)"
    by (simp add: place_files_def)
  have fc: "free_candidate placed_once ''o/.'' ''a'' ''.jpg'' 1 = ''o/./a(1).jpg''"
    by code_simp
  show ?thesis
    using destinations_never_collide [OF first_placement p2] first_placement p2 src fc
    by simp
qed

text \<open>
  C1 does not hold of the code. \<open>compute_normalized_output\<close> never returns a path that
  exists, so the test \<open>if not os.path.exists(dst)\<close> in \<open>copy_media_to_output\<close> is always
  true: placing the same source a second time, with nothing changed, copies it again
  under the next free name.
\<close>

theorem second_run_copies_again:
  "copy_media_to_output (sample_env tool_ok) place_files ''t'' ''o'' ''t/a.jpg''
     = Inr (''o/./a.jpg'', placed_once)
   \<and> copy_media_to_output (sample_env tool_ok) placed_once ''t'' ''o'' ''t/a.jpg''
     = Inr (''o/./a(1).jpg'', placed_once @ [(''o/./a(1).jpg'', File jpeg_bytes True 5 5)])"
proof -
  have "copy_media_to_output (sample_env tool_ok) placed_once ''t'' ''o'' ''t/a.jpg''
     = Inr (''o/./a(1).jpg'', placed_once @ [(''o/./a(1).jpg'', File jpeg_bytes True 5 5)])"
    by code_simp
  then show ?thesis
    using first_placement by simp
qed

section \<open>The run\<close>

lemma link_live_counts:
  "link_live E root_folder out_folder m live_path st = Inr st' \<Longrightarrow>
     success st' = success st \<and> failed st' = failed st"
  by (auto simp: link_live_def split: sum.splits prod.splits if_splits)

lemma process_live_counts:
  "process_live E root_folder out_folder m media_path st = Inr st' \<Longrightarrow>
     success st' = success st \<and> failed st' = failed st"
  by (auto simp: process_live_def Let_def dest: link_live_counts
        split: sum.splits prod.splits option.splits if_splits)

lemma process_unit_missing:
  "process_unit E root_folder out_folder (jp, None) st = Inr (st\<lparr>failed := failed st + 1\<rparr>)"
  by (simp add: process_unit_def)

lemma process_unit_tool_failed:
  "media_path \<noteq> [] \<Longrightarrow>
   copy_media_to_output E (files st) root_folder out_folder media_path = Inr (out_media, fs1) \<Longrightarrow>
   extract_metadata E fs1 jp = Inr m \<Longrightarrow>
   apply_metadata_and_fs_times E fs1 out_media m = Inr (rc, log, fs2) \<Longrightarrow> rc \<noteq> 0 \<Longrightarrow>
     process_unit E root_folder out_folder (jp, Some media_path) st
       = process_live E root_folder out_folder m media_path (st\<lparr>files := fs2\<rparr>)"
  by (simp add: process_unit_def)

lemma process_unit_extract_raises:
  "media_path \<noteq> [] \<Longrightarrow>
   copy_media_to_output E (files st) root_folder out_folder media_path = Inr (out_media, fs1) \<Longrightarrow>
   extract_metadata E fs1 jp = Inl e \<Longrightarrow>
     process_unit E root_folder out_folder (jp, Some media_path) st = Inl e"
  by (simp add: process_unit_def)

lemma find_after:
  "list_all (\<lambda>x. \<not> P x) xs \<Longrightarrow> P a \<Longrightarrow> List.find P (xs @ a # ys) = Some a"
  by (induction xs) auto

lemma plain_jpg_resolves:
  assumes t: "sanitize_json_title title = title" and s: "splitext title = (stem, x)"
    and x: "x \<noteq> [] \<longrightarrow> lower (drop 1 x) \<in> set media_exts"
    and before: "list_all (\<lambda>c. \<not> exists fs (join folder c)) (add_variants ew stem ''heic'')"
    and here: "exists fs (join folder (stem @ ''.jpg''))"
  shows "search_media fs folder title ew = Inr (Some (join folder (stem @ ''.jpg'')))"
proof -
  let ?P = "\<lambda>cand. exists fs (join folder cand)"
  have "\<exists>ys. add_variants ew stem ''jpg'' = (stem @ ''.jpg'') # ys"
    by (simp add: add_variants_def Let_def)
  then obtain zs where c: "search_candidates title ew
      = add_variants ew stem ''heic'' @ (stem @ ''.jpg'') # zs"
    using x by (auto simp: search_candidates_def t s media_exts_def)
  have "List.find ?P (search_candidates title ew) = Some (stem @ ''.jpg'')"
    unfolding c using before here by (rule find_after)
  then show ?thesis
    by (simp add: search_media_def t s)
qed

lemma lower_exts:
  "lower ''.jpg'' = ''.jpg''" "lower ''.mov'' = ''.mov''" "lower ''.json'' = ''.json''"
  "lower ''jpg'' = ''jpg''" "lower ''png'' = ''png''"
  by code_simp+

text \<open>
  C4, as the code has it. A unit with no media adds one to the failure count and the
  loop goes on with the next unit. A unit whose metadata write returns a non-zero code
  goes on into the live-photo part and, when that part raises nothing, to the next
  unit; it is counted neither as a success nor as a failure.
\<close>

theorem unit_failure_counts:
  "process_units E root_folder out_folder ((jp, None) # rest) st
     = process_units E root_folder out_folder rest (st\<lparr>failed := failed st + 1\<rparr>)
   \<and> (media_path \<noteq> [] \<longrightarrow>
        copy_media_to_output E (files st) root_folder out_folder media_path
          = Inr (out_media, fs1) \<longrightarrow>
        extract_metadata E fs1 jp = Inr m \<longrightarrow>
        apply_metadata_and_fs_times E fs1 out_media m = Inr (rc, log, fs2) \<longrightarrow>
        rc \<noteq> 0 \<longrightarrow>
          process_units E root_folder out_folder ((jp, Some media_path) # rest) st
            = (case process_live E root_folder out_folder m media_path (st\<lparr>files := fs2\<rparr>) of
                 Inl e \<Rightarrow> Inl e
               | Inr st' \<Rightarrow> process_units E root_folder out_folder rest st')
          \<and> (\<forall>st'. process_live E root_folder out_folder m media_path (st\<lparr>files := fs2\<rparr>)
                       = Inr st' \<longrightarrow>
                     success st' = success st \<and> failed st' = failed st))"
proof (intro conjI impI allI)
  show "process_units E root_folder out_folder ((jp, None) # rest) st
          = process_units E root_folder out_folder rest (st\<lparr>failed := failed st + 1\<rparr>)"
    by (simp add: process_unit_missing)
next
  assume "media_path \<noteq> []"
    and "copy_media_to_output E (files st) root_folder out_folder media_path
           = Inr (out_media, fs1)"
    and "extract_metadata E fs1 jp = Inr m"
    and "apply_metadata_and_fs_times E fs1 out_media m = Inr (rc, log, fs2)"
    and "rc \<noteq> 0"
  then show "process_units E root_folder out_folder ((jp, Some media_path) # rest) st
            = (case process_live E root_folder out_folder m media_path (st\<lparr>files := fs2\<rparr>) of
                 Inl e \<Rightarrow> Inl e
               | Inr st' \<Rightarrow> process_units E root_folder out_folder rest st')"
    by (simp add: process_unit_tool_failed)
next
  fix st'
  assume "process_live E root_folder out_folder m media_path (st\<lparr>files := fs2\<rparr>) = Inr st'"
  from process_live_counts [OF this]
  show "success st' = success st" and "failed st' = failed st"
    by simp_all
qed

theorem unit_failure_counts_witness:
  "map_sum id (\<lambda>st. (success st, failed st))
     (process_units (sample_env tool_fail) ''t'' ''o''
        [(''t/IMG_2.jpg.json'', Some ''t/IMG_2.jpg''), (''t/IMG_5.jpg.json'', None)]
        (start run_files))
     = Inr (0, 1)"
proof -
  let ?E = "sample_env tool_fail"
  let ?m = "\<lparr>timestamp = None, latitude = JNull, longitude = JNull, altitude = JNull\<rparr>"
  let ?fs1 = "run_files @ [(''o/.'', Dir), (''o/./IMG_2.jpg'', File jpeg_bytes True 5 5)]"
  have c: "copy_media_to_output ?E (files (start run_files)) ''t'' ''o'' ''t/IMG_2.jpg''
             = Inr (''o/./IMG_2.jpg'', ?fs1)"
    by code_simp
  have x: "extract_metadata ?E ?fs1 ''t/IMG_2.jpg.json'' = Inr ?m"
    by code_simp
  have a: "apply_metadata_and_fs_times ?E ?fs1 ''o/./IMG_2.jpg'' ?m
             = Inr (1, ''Error: File format error'', ?fs1)"
    by code_simp
  have l: "process_live ?E ''t'' ''o'' ?m ''t/IMG_2.jpg'' (start run_files\<lparr>files := ?fs1\<rparr>)
             = Inr (start run_files\<lparr>files := ?fs1\<rparr>)"
    by code_simp
  have n: "''t/IMG_2.jpg'' \<noteq> []" "(1::int) \<noteq> 0"
    by simp_all
  have u: "process_units ?E ''t'' ''o''
             [(''t/IMG_2.jpg.json'', Some ''t/IMG_2.jpg''), (''t/IMG_5.jpg.json'', None)]
             (start run_files)
           = process_units ?E ''t'' ''o'' [(''t/IMG_5.jpg.json'', None)]
               (start run_files\<lparr>files := ?fs1\<rparr>)"
    using unit_failure_counts [where E = ?E and root_folder = "''t''" and out_folder = "''o''"
            and st = "start run_files" and media_path = "''t/IMG_2.jpg''"
            and out_media = "''o/./IMG_2.jpg''" and ?fs1.0 = ?fs1
            and jp = "''t/IMG_2.jpg.json''" and m = ?m and rc = 1
            and log = "''Error: File format error''" and ?fs2.0 = ?fs1
            and rest = "[(''t/IMG_5.jpg.json'', None)]"] c x a l n
    by simp
  have v: "process_units ?E ''t'' ''o'' [(''t/IMG_5.jpg.json'', None)]
               (start run_files\<lparr>files := ?fs1\<rparr>)
           = Inr (start run_files\<lparr>files := ?fs1, failed := 1\<rparr>)"
    by (simp add: process_unit_missing start_def)
  show ?thesis
    unfolding u v by (simp add: start_def)
qed

lemma one_picture_sidecars:
  "get_sidecars (Suc d) one_picture ''t'' ''edited''
     = Inr [(''t/IMG_2.jpg.json'', Some ''t/IMG_2.jpg'')]"
proof -
  have sc: "scandir one_picture ''t''
              = Inr [(''IMG_2.jpg'', ''t/IMG_2.jpg''), (''IMG_2.jpg.json'', ''t/IMG_2.jpg.json'')]"
    by code_simp
  have k: "\<not> is_dir one_picture ''t/IMG_2.jpg''" "is_file one_picture ''t/IMG_2.jpg''"
    "\<not> is_dir one_picture ''t/IMG_2.jpg.json''" "is_file one_picture ''t/IMG_2.jpg.json''"
    by (simp_all add: is_dir_def is_file_def one_picture_def)
  have sp: "splitext ''IMG_2.jpg'' = (''IMG_2'', ''.jpg'')"
    "splitext ''IMG_2.jpg.json'' = (''IMG_2.jpg'', ''.json'')"
    by code_simp+
  have st: "sanitize_json_title ''IMG_2.jpg'' = ''IMG_2.jpg''"
    by code_simp
  have before: "list_all (\<lambda>c. \<not> exists one_picture (join ''t'' c))
                  (add_variants ''edited'' ''IMG_2'' ''heic'')"
    by code_simp
  have here: "exists one_picture (join ''t'' (''IMG_2'' @ ''.jpg''))"
    by (simp add: join_def exists_def one_picture_def)
  have r: "search_media one_picture ''t'' ''IMG_2.jpg'' ''edited'' = Inr (Some ''t/IMG_2.jpg'')"
    using plain_jpg_resolves [OF st sp(1) _ before here]
    by (simp add: lower_exts media_exts_def join_def)
  show ?thesis
    by (simp add: sc k sp lower_exts r EXCLUDE_JSON_BASE_def)
qed

text \<open>
  The claim as stated fails where the tool exits with a non-zero code: the run ends
  with no success and no failure counted.
\<close>

theorem tool_failure_not_counted:
  "map_sum id (\<lambda>st. (success st, failed st))
     (process_folder (sample_env tool_fail) one_picture ''t'' ''edited'' ''o'')
     = Inr (0, 0)"
proof -
  have g: "get_sidecars 1000 one_picture ''t'' ''edited''
             = Inr [(''t/IMG_2.jpg.json'', Some ''t/IMG_2.jpg'')]"
    using one_picture_sidecars [of 999] by simp
  have "map_sum id (\<lambda>st. (success st, failed st))
          (process_units (sample_env tool_fail) ''t'' ''o''
             [(''t/IMG_2.jpg.json'', Some ''t/IMG_2.jpg'')] (start one_picture))
        = Inr (0, 0)"
    by code_simp
  then show ?thesis
    using g by (simp add: process_folder_def sample_env_def)
qed

lemma extract_metadata_object:
  assumes "read_all fs jp = Inr bs" and "json_load E bs = Inr (JObj kvs)"
  shows "extract_metadata E fs jp =
     (let ts = (case timestamp_of (JObj kvs) ''photoTakenTime'' of
                  Some (Some t) \<Rightarrow> Some t
                | _ \<Rightarrow> (case timestamp_of (JObj kvs) ''creationTime'' of
                         Some r \<Rightarrow> r | None \<Rightarrow> None));
          geo = (case map_of kvs ''geoData'' of
                   Some v \<Rightarrow> if truthy v then v else JObj []
                 | None \<Rightarrow> JObj [])
      in case geo of
           JObj g \<Rightarrow>
             Inr \<lparr>timestamp = ts,
                  latitude = (case map_of g ''latitude'' of Some v \<Rightarrow> v | None \<Rightarrow> JNull),
                  longitude = (case map_of g ''longitude'' of Some v \<Rightarrow> v | None \<Rightarrow> JNull),
                  altitude = (case map_of g ''altitude'' of Some v \<Rightarrow> v | None \<Rightarrow> JNull)\<rparr>
         | _ \<Rightarrow> Inl AttributeError)"
  using assms
  by (auto simp: extract_metadata_def is_dict_def dict_get_def Let_def
        split: option.splits json.splits)

text \<open>
  C3, as the code has it. For a descriptor that can be read and parses to a JSON object
  whose \<open>geoData\<close> is missing, falsy or an object, extraction raises nothing, and a
  timestamp field that is missing, falsy or not convertible by \<open>int()\<close> counts as
  absent: the timestamp is the one under \<open>photoTakenTime\<close> when that converts, and
  otherwise what \<open>creationTime\<close> gives. A descriptor that cannot be read or parsed,
  that is not an object, or whose \<open>geoData\<close> is a truthy value other than an object
  makes \<open>extract_metadata\<close> raise, and the loop of \<open>process_folder\<close> does not catch
  it: the run ends there.
\<close>

theorem descriptor_errors:
  "(read_all fs jp = Inr bs \<longrightarrow> json_load E bs = Inr (JObj kvs) \<longrightarrow>
      (case map_of kvs ''geoData'' of None \<Rightarrow> True | Some v \<Rightarrow> \<not> truthy v \<or> is_dict v) \<longrightarrow>
      (\<exists>m. extract_metadata E fs jp = Inr m
           \<and> timestamp m =
               (case timestamp_of (JObj kvs) ''photoTakenTime'' of
                  Some (Some t) \<Rightarrow> Some t
                | _ \<Rightarrow> (case timestamp_of (JObj kvs) ''creationTime'' of
                         Some r \<Rightarrow> r | None \<Rightarrow> None))))
   \<and> (\<forall>e. read_all fs jp = Inl e \<longrightarrow> extract_metadata E fs jp = Inl e)
   \<and> (\<forall>e. read_all fs jp = Inr bs \<longrightarrow> json_load E bs = Inl e \<longrightarrow>
          extract_metadata E fs jp = Inl e)
   \<and> (read_all fs jp = Inr bs \<longrightarrow> json_load E bs = Inr j \<longrightarrow> \<not> is_dict j \<longrightarrow>
          extract_metadata E fs jp = Inl AttributeError)
   \<and> (read_all fs jp = Inr bs \<longrightarrow> json_load E bs = Inr (JObj kvs) \<longrightarrow>
        map_of kvs ''geoData'' = Some v \<longrightarrow> truthy v \<longrightarrow> \<not> is_dict v \<longrightarrow>
          extract_metadata E fs jp = Inl AttributeError)
   \<and> (media_path \<noteq> [] \<longrightarrow>
        copy_media_to_output E (files st) root_folder out_folder media_path
          = Inr (out_media, fs1) \<longrightarrow>
        extract_metadata E fs1 jp' = Inl e' \<longrightarrow>
          process_units E root_folder out_folder ((jp', Some media_path) # rest) st = Inl e')"
proof (intro conjI impI allI)
  assume r: "read_all fs jp = Inr bs" and p: "json_load E bs = Inr (JObj kvs)"
    and g: "case map_of kvs ''geoData'' of None \<Rightarrow> True | Some v \<Rightarrow> \<not> truthy v \<or> is_dict v"
  show "\<exists>m. extract_metadata E fs jp = Inr m
           \<and> timestamp m =
               (case timestamp_of (JObj kvs) ''photoTakenTime'' of
                  Some (Some t) \<Rightarrow> Some t
                | _ \<Rightarrow> (case timestamp_of (JObj kvs) ''creationTime'' of
                         Some r \<Rightarrow> r | None \<Rightarrow> None))"
    using g
    by (auto simp: extract_metadata_object [OF r p] is_dict_def Let_def
          split: option.splits json.splits)
next
  fix e assume "read_all fs jp = Inl e"
  then show "extract_metadata E fs jp = Inl e"
    by (simp add: extract_metadata_def)
next
  fix e assume "read_all fs jp = Inr bs" and "json_load E bs = Inl e"
  then show "extract_metadata E fs jp = Inl e"
    by (simp add: extract_metadata_def)
next
  assume "read_all fs jp = Inr bs" and "json_load E bs = Inr j" and "\<not> is_dict j"
  then show "extract_metadata E fs jp = Inl AttributeError"
    by (simp add: extract_metadata_def)
next
  assume r: "read_all fs jp = Inr bs" and p: "json_load E bs = Inr (JObj kvs)"
    and "map_of kvs ''geoData'' = Some v" and "truthy v" and "\<not> is_dict v"
  then show "extract_metadata E fs jp = Inl AttributeError"
    by (auto simp: extract_metadata_object [OF r p] is_dict_def Let_def split: json.splits)
next
  assume "media_path \<noteq> []"
    and "copy_media_to_output E (files st) root_folder out_folder media_path
           = Inr (out_media, fs1)"
    and "extract_metadata E fs1 jp' = Inl e'"
  then show "process_units E root_folder out_folder ((jp', Some media_path) # rest) st = Inl e'"
    by (simp add: process_unit_extract_raises)
qed

theorem descriptor_errors_witness:
  "extract_metadata (sample_env tool_ok) run_files ''t/IMG_2.jpg.json''
     = Inr \<lparr>timestamp = None, latitude = JNull, longitude = JNull, altitude = JNull\<rparr>
   \<and> extract_metadata (sample_env tool_ok) run_files ''t/IMG_3.jpg.json'' = Inl JSONDecodeError
   \<and> extract_metadata (sample_env tool_ok) run_files ''t/IMG_4.jpg.json'' = Inl AttributeError
   \<and> extract_metadata (sample_env tool_ok) run_files ''t/none.json'' = Inl FileNotFoundError"
proof -
  let ?E = "sample_env tool_ok"
  let ?kvs = "[(''photoTakenTime'', JObj [(''timestamp'', JStr ''soon'')]), (''geoData'', JNull)]"
  have r2: "read_all run_files ''t/IMG_2.jpg.json'' = Inr odd_json"
    and r3: "read_all run_files ''t/IMG_3.jpg.json'' = Inr cut_json"
    and r4: "read_all run_files ''t/IMG_4.jpg.json'' = Inr list_json"
    and r5: "read_all run_files ''t/none.json'' = Inl FileNotFoundError"
    by (simp_all add: read_all_def run_files_def)
  have p2: "json_load ?E odd_json = Inr (JObj ?kvs)"
    and p3: "json_load ?E cut_json = Inl JSONDecodeError"
    and p4: "json_load ?E list_json = Inr (JArr [])"
    by code_simp+
  have g: "case map_of ?kvs ''geoData'' of None \<Rightarrow> True | Some v \<Rightarrow> \<not> truthy v \<or> is_dict v"
    by (simp add: truthy_def)
  have t: "timestamp_of (JObj ?kvs) ''photoTakenTime'' = Some None"
    "timestamp_of (JObj ?kvs) ''creationTime'' = None"
    by code_simp+
  have n: "\<not> is_dict (JArr [])"
    by (simp add: is_dict_def)
  have x2: "extract_metadata ?E run_files ''t/IMG_2.jpg.json''
              = Inr \<lparr>timestamp = None, latitude = JNull, longitude = JNull, altitude = JNull\<rparr>"
    by code_simp
  from descriptor_errors [where fs = run_files and jp = "''t/IMG_2.jpg.json''" and E = ?E
      and bs = odd_json and kvs = ?kvs] r2 p2 g t
  have "\<exists>m. extract_metadata ?E run_files ''t/IMG_2.jpg.json'' = Inr m \<and> timestamp m = None"
    by simp
  moreover from descriptor_errors [where fs = run_files and jp = "''t/IMG_3.jpg.json''"
      and E = ?E and bs = cut_json] r3 p3
  have "extract_metadata ?E run_files ''t/IMG_3.jpg.json'' = Inl JSONDecodeError"
    by simp
  moreover from descriptor_errors [where fs = run_files and jp = "''t/IMG_4.jpg.json''"
      and E = ?E and bs = list_json and j = "JArr []"] r4 p4 n
  have "extract_metadata ?E run_files ''t/IMG_4.jpg.json'' = Inl AttributeError"
    by simp
  moreover from descriptor_errors [where fs = run_files and jp = "''t/none.json''" and E = ?E] r5
  have "extract_metadata ?E run_files ''t/none.json'' = Inl FileNotFoundError"
    by simp
  ultimately show ?thesis
    using x2 by simp
qed

lemma cut_sidecars:
  "get_sidecars (Suc d) cut_files ''t'' ''edited''
     = Inr [(''t/IMG_3.jpg.json'', Some ''t/IMG_3.jpg''), (''t/IMG_2.jpg.json'', Some ''t/IMG_2.jpg'')]"
proof -
  have sc: "scandir cut_files ''t''
              = Inr [(''IMG_3.jpg'', ''t/IMG_3.jpg''), (''IMG_3.jpg.json'', ''t/IMG_3.jpg.json''),
                     (''IMG_2.jpg'', ''t/IMG_2.jpg''), (''IMG_2.jpg.json'', ''t/IMG_2.jpg.json'')]"
    by code_simp
  have k: "\<not> is_dir cut_files ''t/IMG_3.jpg''" "is_file cut_files ''t/IMG_3.jpg''"
    "\<not> is_dir cut_files ''t/IMG_3.jpg.json''" "is_file cut_files ''t/IMG_3.jpg.json''"
    "\<not> is_dir cut_files ''t/IMG_2.jpg''" "is_file cut_files ''t/IMG_2.jpg''"
    "\<not> is_dir cut_files ''t/IMG_2.jpg.json''" "is_file cut_files ''t/IMG_2.jpg.json''"
    by (simp_all add: is_dir_def is_file_def cut_files_def)
  have sp: "splitext ''IMG_3.jpg'' = (''IMG_3'', ''.jpg'')"
    "splitext ''IMG_2.jpg'' = (''IMG_2'', ''.jpg'')"
    "splitext ''IMG_3.jpg.json'' = (''IMG_3.jpg'', ''.json'')"
    "splitext ''IMG_2.jpg.json'' = (''IMG_2.jpg'', ''.json'')"
    by code_simp+
  have st: "sanitize_json_title ''IMG_3.jpg'' = ''IMG_3.jpg''"
    "sanitize_json_title ''IMG_2.jpg'' = ''IMG_2.jpg''"
    by code_simp+
  have before: "list_all (\<lambda>c. \<not> exists cut_files (join ''t'' c))
                  (add_variants ''edited'' ''IMG_3'' ''heic'')"
    "list_all (\<lambda>c. \<not> exists cut_files (join ''t'' c))
                  (add_variants ''edited'' ''IMG_2'' ''heic'')"
    by code_simp+
  have here: "exists cut_files (join ''t'' (''IMG_3'' @ ''.jpg''))"
    "exists cut_files (join ''t'' (''IMG_2'' @ ''.jpg''))"
    by (simp_all add: join_def exists_def cut_files_def)
  have r3: "search_media cut_files ''t'' ''IMG_3.jpg'' ''edited'' = Inr (Some ''t/IMG_3.jpg'')"
    using plain_jpg_resolves [OF st(1) sp(1) _ before(1) here(1)]
    by (simp add: lower_exts media_exts_def join_def)
  have r2: "search_media cut_files ''t'' ''IMG_2.jpg'' ''edited'' = Inr (Some ''t/IMG_2.jpg'')"
    using plain_jpg_resolves [OF st(2) sp(2) _ before(2) here(2)]
    by (simp add: lower_exts media_exts_def join_def)
  show ?thesis
    by (simp add: sc k sp lower_exts r3 r2 EXCLUDE_JSON_BASE_def)
qed

text \<open>
  The claim as stated fails: a descriptor that is cut off in the middle ends the run
  with an exception, and the unit after it is never reached.
\<close>

theorem malformed_descriptor_aborts:
  "get_sidecars 1000 cut_files ''t'' ''edited''
     = Inr [(''t/IMG_3.jpg.json'', Some ''t/IMG_3.jpg''), (''t/IMG_2.jpg.json'', Some ''t/IMG_2.jpg'')]
   \<and> process_folder (sample_env tool_ok) cut_files ''t'' ''edited'' ''o'' = Inl JSONDecodeError"
proof -
  have g: "get_sidecars 1000 cut_files ''t'' ''edited''
     = Inr [(''t/IMG_3.jpg.json'', Some ''t/IMG_3.jpg''), (''t/IMG_2.jpg.json'', Some ''t/IMG_2.jpg'')]"
    using cut_sidecars [of 999] by simp
  have "process_units (sample_env tool_ok) ''t'' ''o''
          [(''t/IMG_3.jpg.json'', Some ''t/IMG_3.jpg''), (''t/IMG_2.jpg.json'', Some ''t/IMG_2.jpg'')]
          (start cut_files) = Inl JSONDecodeError"
    by code_simp
  then show ?thesis
    using g by (simp add: process_folder_def sample_env_def)
qed

lemma linked_paths_snoc:
  "linked_paths (l @ [(p, rc)]) = linked_paths l @ (if rc = 0 then [p] else [])"
  by (simp add: linked_paths_def)

lemma linked_paths_mem: "(p, 0) \<in> set l \<Longrightarrow> p \<in> set (linked_paths l)"
  by (force simp: linked_paths_def)

lemma no_later_snoc:
  assumes old: "\<forall>xs p ys. l = xs @ (p, 0) # ys \<longrightarrow> p \<notin> fst ` set ys"
    and new: "lp \<notin> set (linked_paths l)"
  shows "\<forall>xs p ys. l @ [(lp, rc)] = xs @ (p, 0) # ys \<longrightarrow> p \<notin> fst ` set ys"
proof (intro allI impI)
  fix xs p ys
  assume eq: "l @ [(lp, rc)] = xs @ (p, 0::int) # ys"
  show "p \<notin> fst ` set ys"
  proof (cases ys rule: rev_cases)
    case Nil
    then show ?thesis by simp
  next
    case (snoc ys' y)
    with eq have "l @ [(lp, rc)] = (xs @ (p, 0) # ys') @ [y]"
      by simp
    then have l: "l = xs @ (p, 0) # ys'" and y: "y = (lp, rc)"
      by auto
    from l old have "p \<notin> fst ` set ys'"
      by blast
    moreover from l have "p \<in> set (linked_paths l)"
      by (intro linked_paths_mem) simp
    with new have "p \<noteq> lp"
      by auto
    ultimately show ?thesis
      using snoc y by auto
  qed
qed

lemma live_inv_write_failed:
  assumes inv: "live_inv st" and new: "lp \<notin> seen_live st" and rc: "rc \<noteq> 0"
  shows "live_inv (st\<lparr>files := f, live_log := live_log st @ [(lp, rc)]\<rparr>)"
proof -
  from inv new have nl: "lp \<notin> set (linked_paths (live_log st))"
    by (simp add: live_inv_def)
  from inv have "\<forall>xs p ys. live_log st = xs @ (p, 0) # ys \<longrightarrow> p \<notin> fst ` set ys"
    by (simp add: live_inv_def)
  from no_later_snoc [OF this nl]
  have "\<forall>xs p ys. live_log st @ [(lp, rc)] = xs @ (p, 0) # ys \<longrightarrow> p \<notin> fst ` set ys" .
  with inv rc show ?thesis
    by (simp add: live_inv_def linked_paths_snoc)
qed

lemma live_inv_write_ok:
  assumes inv: "live_inv st" and new: "lp \<notin> seen_live st"
  shows "live_inv (st\<lparr>files := f, linked_live := Suc (linked_live st),
                      seen_live := insert lp (seen_live st),
                      live_log := live_log st @ [(lp, 0)]\<rparr>)"
proof -
  from inv new have nl: "lp \<notin> set (linked_paths (live_log st))"
    by (simp add: live_inv_def)
  from inv have "\<forall>xs p ys. live_log st = xs @ (p, 0) # ys \<longrightarrow> p \<notin> fst ` set ys"
    by (simp add: live_inv_def)
  from no_later_snoc [OF this nl]
  have "\<forall>xs p ys. live_log st @ [(lp, 0)] = xs @ (p, 0) # ys \<longrightarrow> p \<notin> fst ` set ys" .
  with inv nl show ?thesis
    by (simp add: live_inv_def linked_paths_snoc)
qed

lemma link_live_inv:
  "link_live E root_folder out_folder m live_path st = Inr st' \<Longrightarrow>
   live_inv st \<Longrightarrow> live_path \<notin> seen_live st \<Longrightarrow> live_inv st'"
  by (auto simp: link_live_def live_inv_write_failed live_inv_write_ok
        split: sum.splits prod.splits if_splits)

lemma process_live_inv:
  "process_live E root_folder out_folder m media_path st = Inr st' \<Longrightarrow> live_inv st \<Longrightarrow>
     live_inv st'"
  by (auto simp: process_live_def Let_def dest: link_live_inv
        split: sum.splits prod.splits option.splits if_splits)

lemma live_inv_other_fields [simp]:
  "live_inv (st\<lparr>files := f\<rparr>) = live_inv st"
  "live_inv (st\<lparr>success := s\<rparr>) = live_inv st"
  "live_inv (st\<lparr>failed := k\<rparr>) = live_inv st"
  by (simp_all add: live_inv_def)

lemma process_unit_inv:
  "process_unit E root_folder out_folder u st = Inr st' \<Longrightarrow> live_inv st \<Longrightarrow> live_inv st'"
  by (cases u)
     (auto simp: process_unit_def dest: process_live_inv
        split: sum.splits prod.splits option.splits if_splits)

lemma process_units_inv:
  "live_inv st \<Longrightarrow> process_units E root_folder out_folder us st = Inr st' \<Longrightarrow> live_inv st'"
proof (induction us arbitrary: st)
  case Nil
  then show ?case by simp
next
  case (Cons u us)
  from Cons.prems(2) obtain st1 where
    u: "process_unit E root_folder out_folder u st = Inr st1"
    and r: "process_units E root_folder out_folder us st1 = Inr st'"
    by (auto split: sum.splits)
  from process_unit_inv [OF u Cons.prems(1)] have "live_inv st1" .
  from Cons.IH [OF this r] show ?case .
qed

lemma live_inv_start: "live_inv (start fs)"
  by (simp add: live_inv_def start_def linked_paths_def)

lemma live_sidecars:
  "get_sidecars (Suc d) live_files ''t'' ''edited'' = Inr shared_video_units"
proof -
  have sc: "scandir live_files ''t''
              = Inr [(''IMG_1.jpg'', ''t/IMG_1.jpg''), (''IMG_1.jpg.json'', ''t/IMG_1.jpg.json''),
                     (''IMG_1.png.json'', ''t/IMG_1.png.json''), (''IMG_1.mov'', ''t/IMG_1.mov'')]"
    by code_simp
  have k: "\<not> is_dir live_files ''t/IMG_1.jpg''" "is_file live_files ''t/IMG_1.jpg''"
    "\<not> is_dir live_files ''t/IMG_1.jpg.json''" "is_file live_files ''t/IMG_1.jpg.json''"
    "\<not> is_dir live_files ''t/IMG_1.png.json''" "is_file live_files ''t/IMG_1.png.json''"
    "\<not> is_dir live_files ''t/IMG_1.mov''" "is_file live_files ''t/IMG_1.mov''"
    by (simp_all add: is_dir_def is_file_def live_files_def)
  have sp: "splitext ''IMG_1.jpg'' = (''IMG_1'', ''.jpg'')"
    "splitext ''IMG_1.png'' = (''IMG_1'', ''.png'')"
    "splitext ''IMG_1.mov'' = (''IMG_1'', ''.mov'')"
    "splitext ''IMG_1.jpg.json'' = (''IMG_1.jpg'', ''.json'')"
    "splitext ''IMG_1.png.json'' = (''IMG_1.png'', ''.json'')"
    by code_simp+
  have st: "sanitize_json_title ''IMG_1.jpg'' = ''IMG_1.jpg''"
    "sanitize_json_title ''IMG_1.png'' = ''IMG_1.png''"
    by code_simp+
  have before: "list_all (\<lambda>c. \<not> exists live_files (join ''t'' c))
                  (add_variants ''edited'' ''IMG_1'' ''heic'')"
    by code_simp
  have here: "exists live_files (join ''t'' (''IMG_1'' @ ''.jpg''))"
    by (simp add: join_def exists_def live_files_def)
  have r1: "search_media live_files ''t'' ''IMG_1.jpg'' ''edited'' = Inr (Some ''t/IMG_1.jpg'')"
    using plain_jpg_resolves [OF st(1) sp(1) _ before here]
    by (simp add: lower_exts media_exts_def join_def)
  have r2: "search_media live_files ''t'' ''IMG_1.png'' ''edited'' = Inr (Some ''t/IMG_1.jpg'')"
    using plain_jpg_resolves [OF st(2) sp(2) _ before here]
    by (simp add: lower_exts media_exts_def join_def)
  show ?thesis
    by (simp add: sc k sp lower_exts r1 r2 EXCLUDE_JSON_BASE_def shared_video_units_def)
qed

lemma live_run:
  "process_folder (sample_env tool) live_files ''t'' ''edited'' ''o''
     = process_units (sample_env tool) ''t'' ''o'' shared_video_units (start live_files)"
proof -
  have "get_sidecars 1000 live_files ''t'' ''edited'' = Inr shared_video_units"
    using live_sidecars [of 999] by simp
  then show ?thesis
    by (simp add: process_folder_def sample_env_def)
qed

text \<open>
  C2, as the code has it. In every run that ends normally, the companions whose
  metadata write returned 0 are linked once each: they are exactly the members of the
  seen set, the counter of linked videos is their number, and after such a write the
  same source path never reaches the copy and the write again. A companion whose write
  returned a non-zero code is not put in the set.
\<close>

theorem companion_linked_once:
  "process_folder E fs root_folder edited_word out_folder = Inr st \<Longrightarrow>
     distinct (linked_paths (live_log st))
     \<and> seen_live st = set (linked_paths (live_log st))
     \<and> linked_live st = length (linked_paths (live_log st))
     \<and> (\<forall>xs p ys. live_log st = xs @ (p, 0) # ys \<longrightarrow> p \<notin> fst ` set ys)"
proof -
  assume "process_folder E fs root_folder edited_word out_folder = Inr st"
  then obtain units where
    "process_units E root_folder out_folder units (start fs) = Inr st"
    by (auto simp: process_folder_def split: sum.splits)
  from process_units_inv [OF live_inv_start this] have "live_inv st" .
  then show ?thesis
    by (simp add: live_inv_def)
qed

theorem companion_linked_once_witness:
  "map_sum id (\<lambda>st. (live_log st, linked_live st, success st, paths_under ''o/'' (files st)))
     (process_folder (sample_env tool_ok) live_files ''t'' ''edited'' ''o'')
     = Inr ([(''t/IMG_1.mov'', 0)], 1, 2,
            [''o/.'', ''o/./IMG_1.jpg'', ''o/./IMG_1.mov'', ''o/./IMG_1(1).jpg''])"
proof -
  obtain st where
    r: "process_folder (sample_env tool_ok) live_files ''t'' ''edited'' ''o'' = Inr st"
    and v: "live_log st = [(''t/IMG_1.mov'', 0)]" "success st = 2"
      "paths_under ''o/'' (files st)
         = [''o/.'', ''o/./IMG_1.jpg'', ''o/./IMG_1.mov'', ''o/./IMG_1(1).jpg'']"
  proof -
    have "map_sum id (\<lambda>st. (live_log st, success st, paths_under ''o/'' (files st)))
            (process_units (sample_env tool_ok) ''t'' ''o'' shared_video_units (start live_files))
          = Inr ([(''t/IMG_1.mov'', 0)], 2,
                 [''o/.'', ''o/./IMG_1.jpg'', ''o/./IMG_1.mov'', ''o/./IMG_1(1).jpg''])"
      by code_simp
    then show ?thesis
      unfolding live_run [symmetric]
      by (cases "process_folder (sample_env tool_ok) live_files ''t'' ''edited'' ''o''")
         (auto intro: that)
  qed
  from companion_linked_once [OF r] v have "linked_live st = 1"
    by (simp add: linked_paths_def)
  with r v show ?thesis
    by simp
qed

text \<open>
  The claim as stated fails where the metadata write of the companion returns a
  non-zero code: two descriptors resolve to the picture beside the video, and the
  video is copied and written for each of them, under two names.
\<close>

theorem shared_video_processed_twice:
  "map_sum id (\<lambda>st. (live_log st, linked_live st, paths_under ''o/'' (files st)))
     (process_folder (sample_env tool_fail) live_files ''t'' ''edited'' ''o'')
     = Inr ([(''t/IMG_1.mov'', 1), (''t/IMG_1.mov'', 1)], 0,
            [''o/.'', ''o/./IMG_1.jpg'', ''o/./IMG_1.mov'', ''o/./IMG_1(1).jpg'',
             ''o/./IMG_1(1).mov''])"
proof -
  have "map_sum id (\<lambda>st. (live_log st, linked_live st, paths_under ''o/'' (files st)))
     (process_units (sample_env tool_fail) ''t'' ''o'' shared_video_units (start live_files))
     = Inr ([(''t/IMG_1.mov'', 1), (''t/IMG_1.mov'', 1)], 0,
            [''o/.'', ''o/./IMG_1.jpg'', ''o/./IMG_1.mov'', ''o/./IMG_1(1).jpg'',
             ''o/./IMG_1(1).mov''])"
    by code_simp
  then show ?thesis
    by (simp only: live_run)
qed

section \<open>The media resolver\<close>

lemma find_third:
  "list_all (\<lambda>x. \<not> P x) xs \<Longrightarrow> \<not> P a \<Longrightarrow> P b \<Longrightarrow> List.find P (xs @ a # b # ys) = Some b"
  by (induction xs) auto

lemma img2_title: "sanitize_json_title ''IMG_2.jpg'' = ''IMG_2.jpg''"
  by code_simp

lemma img2_split: "splitext ''IMG_2.jpg'' = (''IMG_2'', ''.jpg'')"
  by code_simp

lemma img2_heic_variants:
  "list_all (\<lambda>c. CHR ''/'' \<notin> set c \<and> c \<noteq> ''IMG_2-edited.jpg'')
     (add_variants ''edited'' ''IMG_2'' ''heic'')"
  by code_simp

lemma img2_jpg_variants:
  "\<exists>ys. add_variants ''edited'' ''IMG_2'' ''jpg'' = ''IMG_2.jpg'' # ''IMG_2-edited.jpg'' # ys"
  by (simp add: add_variants_def Let_def)

lemma img2_candidates:
  "\<exists>ys. search_candidates ''IMG_2.jpg'' ''edited''
          = add_variants ''edited'' ''IMG_2'' ''heic'' @ ''IMG_2.jpg'' # ''IMG_2-edited.jpg'' # ys"
proof -
  obtain ys where "add_variants ''edited'' ''IMG_2'' ''jpg'' = ''IMG_2.jpg'' # ''IMG_2-edited.jpg'' # ys"
    using img2_jpg_variants by blast
  then show ?thesis
    by (simp add: search_candidates_def img2_title img2_split media_exts_def lower_def
          lower_char_def)
qed

lemma edited_forms_in_candidates:
  "ext \<in> set media_exts \<Longrightarrow> stem = fst (splitext (sanitize_json_title title)) \<Longrightarrow>
     stem @ ''-'' @ edited_word @ ''.'' @ ext \<in> set (search_candidates title edited_word)
     \<and> stem @ ''-'' @ upper edited_word @ ''.'' @ ext \<in> set (search_candidates title edited_word)
     \<and> stem @ '' - '' @ edited_word @ ''.'' @ ext \<in> set (search_candidates title edited_word)
     \<and> stem @ '' ('' @ edited_word @ '')'' @ ''.'' @ ext
          \<in> set (search_candidates title edited_word)"
proof -
  assume e: "ext \<in> set media_exts" and s: "stem = fst (splitext (sanitize_json_title title))"
  obtain je where sp: "splitext (sanitize_json_title title) = (stem, je)"
    using s by (cases "splitext (sanitize_json_title title)") simp
  have "set (add_variants edited_word stem ext) \<subseteq> set (search_candidates title edited_word)"
    using e by (auto simp: search_candidates_def sp)
  moreover have "stem @ ''-'' @ edited_word @ ''.'' @ ext \<in> set (add_variants edited_word stem ext)"
    "stem @ ''-'' @ upper edited_word @ ''.'' @ ext \<in> set (add_variants edited_word stem ext)"
    "stem @ '' - '' @ edited_word @ ''.'' @ ext \<in> set (add_variants edited_word stem ext)"
    "stem @ '' ('' @ edited_word @ '')'' @ ''.'' @ ext \<in> set (add_variants edited_word stem ext)"
    by (simp_all add: add_variants_def Let_def)
  ultimately show ?thesis
    by blast
qed

text \<open>
  C9. In a directory whose only entry is \<open>IMG_2-edited.jpg\<close>, resolving the title
  \<open>IMG_2.jpg\<close> with the edited word \<open>edited\<close> returns the path of that file. For
  every title and edited word, the candidates hold the four edited forms of the stem
  for every extension of the priority list.
\<close>

theorem search_media_edited:
  "(exists fs (join path ''IMG_2-edited.jpg'') \<longrightarrow>
      (\<forall>name. name \<noteq> ''IMG_2-edited.jpg'' \<longrightarrow> CHR ''/'' \<notin> set name \<longrightarrow>
           \<not> exists fs (join path name)) \<longrightarrow>
      search_media fs path ''IMG_2.jpg'' ''edited'' = Inr (Some (join path ''IMG_2-edited.jpg'')))
   \<and> (\<forall>ext \<in> set media_exts.
        stem = fst (splitext (sanitize_json_title title)) \<longrightarrow>
          stem @ ''-'' @ edited_word @ ''.'' @ ext \<in> set (search_candidates title edited_word)
          \<and> stem @ ''-'' @ upper edited_word @ ''.'' @ ext
               \<in> set (search_candidates title edited_word)
          \<and> stem @ '' - '' @ edited_word @ ''.'' @ ext
               \<in> set (search_candidates title edited_word)
          \<and> stem @ '' ('' @ edited_word @ '')'' @ ''.'' @ ext
               \<in> set (search_candidates title edited_word))"
proof -
  have first: "exists fs (join path ''IMG_2-edited.jpg'') \<longrightarrow>
      (\<forall>name. name \<noteq> ''IMG_2-edited.jpg'' \<longrightarrow> CHR ''/'' \<notin> set name \<longrightarrow>
           \<not> exists fs (join path name)) \<longrightarrow>
      search_media fs path ''IMG_2.jpg'' ''edited'' = Inr (Some (join path ''IMG_2-edited.jpg''))"
  proof (intro impI)
    assume there: "exists fs (join path ''IMG_2-edited.jpg'')"
      and only: "\<forall>name. name \<noteq> ''IMG_2-edited.jpg'' \<longrightarrow> CHR ''/'' \<notin> set name \<longrightarrow>
                   \<not> exists fs (join path name)"
    let ?P = "\<lambda>cand. exists fs (join path cand)"
    obtain ys where c: "search_candidates ''IMG_2.jpg'' ''edited''
        = add_variants ''edited'' ''IMG_2'' ''heic'' @ ''IMG_2.jpg'' # ''IMG_2-edited.jpg'' # ys"
      using img2_candidates by blast
    have pre: "list_all (\<lambda>x. \<not> ?P x) (add_variants ''edited'' ''IMG_2'' ''heic'')"
      using img2_heic_variants only by (simp add: list_all_iff)
    have plain: "\<not> ?P ''IMG_2.jpg''"
      using only by simp
    have "List.find ?P (search_candidates ''IMG_2.jpg'' ''edited'') = Some ''IMG_2-edited.jpg''"
      unfolding c using pre plain there by (rule find_third)
    then show "search_media fs path ''IMG_2.jpg'' ''edited''
                 = Inr (Some (join path ''IMG_2-edited.jpg''))"
      by (simp add: search_media_def img2_title img2_split)
  qed
  have second: "\<forall>ext \<in> set media_exts.
        stem = fst (splitext (sanitize_json_title title)) \<longrightarrow>
          stem @ ''-'' @ edited_word @ ''.'' @ ext \<in> set (search_candidates title edited_word)
          \<and> stem @ ''-'' @ upper edited_word @ ''.'' @ ext
               \<in> set (search_candidates title edited_word)
          \<and> stem @ '' - '' @ edited_word @ ''.'' @ ext
               \<in> set (search_candidates title edited_word)
          \<and> stem @ '' ('' @ edited_word @ '')'' @ ''.'' @ ext
               \<in> set (search_candidates title edited_word)"
    by (intro ballI impI) (rule edited_forms_in_candidates)
  show ?thesis
    by (rule conjI [OF first second])
qed

theorem search_media_edited_witness:
  "search_media edited_only ''d'' ''IMG_2.jpg'' ''edited'' = Inr (Some ''d/IMG_2-edited.jpg'')
   \<and> ''IMG_2-EDITED.heic'' \<in> set (search_candidates ''IMG_2.jpg'' ''edited'')"
proof -
  have j: "join ''d'' ''IMG_2-edited.jpg'' = ''d/IMG_2-edited.jpg''"
    by (simp add: join_def)
  have there: "exists edited_only (join ''d'' ''IMG_2-edited.jpg'')"
    by (simp add: j exists_def edited_only_def)
  have only: "\<forall>name. name \<noteq> ''IMG_2-edited.jpg'' \<longrightarrow> CHR ''/'' \<notin> set name \<longrightarrow>
                \<not> exists edited_only (join ''d'' name)"
  proof (intro allI impI)
    fix name :: string
    assume n: "name \<noteq> ''IMG_2-edited.jpg''" and s: "CHR ''/'' \<notin> set name"
    from s have "join ''d'' name = ''d/'' @ name"
      by (cases name) (auto simp: join_def)
    with n show "\<not> exists edited_only (join ''d'' name)"
      by (simp add: exists_def edited_only_def)
  qed
  have h: "''heic'' \<in> set media_exts"
    by (simp add: media_exts_def)
  have u: "upper ''edited'' = ''EDITED''"
    by code_simp
  from search_media_edited [where fs = edited_only and path = "''d''" and stem = "''IMG_2''"
      and title = "''IMG_2.jpg''" and edited_word = "''edited''"] there only h
  show ?thesis
    by (simp add: j img2_title img2_split u)
qed

end
